theory Spec2Isabelle
  imports Main "HOL-Library.Sublist" "HOL-Library.Char_ord" "HOL-Library.List_Lexorder"
begin

section \<open>Text\<close>

text \<open>
  A character is a Unicode code point below 256, and a string a sequence of them (the
  type has no code point beyond). \<open>str.lower()\<close> and the word class \<open>\w\<close> of a
  \<open>str\<close> pattern follow the Unicode database, which for these code points says: the
  capitals are \<open>A\<close>..\<open>Z\<close> and \<open>0xC0\<close>..\<open>0xDE\<close> without \<open>0xD7\<close>, each 32 below its
  small letter; the alphanumeric characters (\<open>str.isalnum\<close>) are the ASCII letters and
  digits and the code points listed in \<open>latin1_alnum\<close>; a word character is an
  alphanumeric character or the underscore.
\<close>

definition latin1_upper :: string where
  "latin1_upper =
     [CHR 0xC0, CHR 0xC1, CHR 0xC2, CHR 0xC3, CHR 0xC4, CHR 0xC5, CHR 0xC6, CHR 0xC7,
      CHR 0xC8, CHR 0xC9, CHR 0xCA, CHR 0xCB, CHR 0xCC, CHR 0xCD, CHR 0xCE, CHR 0xCF,
      CHR 0xD0, CHR 0xD1, CHR 0xD2, CHR 0xD3, CHR 0xD4, CHR 0xD5, CHR 0xD6, CHR 0xD8,
      CHR 0xD9, CHR 0xDA, CHR 0xDB, CHR 0xDC, CHR 0xDD, CHR 0xDE]"

definition latin1_lower :: string where
  "latin1_lower =
     [CHR 0xE0, CHR 0xE1, CHR 0xE2, CHR 0xE3, CHR 0xE4, CHR 0xE5, CHR 0xE6, CHR 0xE7,
      CHR 0xE8, CHR 0xE9, CHR 0xEA, CHR 0xEB, CHR 0xEC, CHR 0xED, CHR 0xEE, CHR 0xEF,
      CHR 0xF0, CHR 0xF1, CHR 0xF2, CHR 0xF3, CHR 0xF4, CHR 0xF5, CHR 0xF6, CHR 0xF8,
      CHR 0xF9, CHR 0xFA, CHR 0xFB, CHR 0xFC, CHR 0xFD, CHR 0xFE]"

definition latin1_alnum :: string where
  "latin1_alnum =
     [CHR 0xAA, CHR 0xB2, CHR 0xB3, CHR 0xB5, CHR 0xB9, CHR 0xBA, CHR 0xBC, CHR 0xBD,
      CHR 0xBE, CHR 0xC0, CHR 0xC1, CHR 0xC2, CHR 0xC3, CHR 0xC4, CHR 0xC5, CHR 0xC6,
      CHR 0xC7, CHR 0xC8, CHR 0xC9, CHR 0xCA, CHR 0xCB, CHR 0xCC, CHR 0xCD, CHR 0xCE,
      CHR 0xCF, CHR 0xD0, CHR 0xD1, CHR 0xD2, CHR 0xD3, CHR 0xD4, CHR 0xD5, CHR 0xD6,
      CHR 0xD8, CHR 0xD9, CHR 0xDA, CHR 0xDB, CHR 0xDC, CHR 0xDD, CHR 0xDE, CHR 0xDF,
      CHR 0xE0, CHR 0xE1, CHR 0xE2, CHR 0xE3, CHR 0xE4, CHR 0xE5, CHR 0xE6, CHR 0xE7,
      CHR 0xE8, CHR 0xE9, CHR 0xEA, CHR 0xEB, CHR 0xEC, CHR 0xED, CHR 0xEE, CHR 0xEF,
      CHR 0xF0, CHR 0xF1, CHR 0xF2, CHR 0xF3, CHR 0xF4, CHR 0xF5, CHR 0xF6, CHR 0xF8,
      CHR 0xF9, CHR 0xFA, CHR 0xFB, CHR 0xFC, CHR 0xFD, CHR 0xFE, CHR 0xFF]"

definition lower_char :: "char \<Rightarrow> char" where
  "lower_char c =
     (case map_of (zip (''ABCDEFGHIJKLMNOPQRSTUVWXYZ'' @ latin1_upper)
                       (''abcdefghijklmnopqrstuvwxyz'' @ latin1_lower)) c of
        None \<Rightarrow> c
      | Some l \<Rightarrow> l)"

definition lower :: "string \<Rightarrow> string" where
  "lower s = map lower_char s"

definition is_alnum :: "char \<Rightarrow> bool" where
  "is_alnum c =
     (c \<in> set (''abcdefghijklmnopqrstuvwxyzABCDEFGHIJKLMNOPQRSTUVWXYZ0123456789'' @
               latin1_alnum))"

definition is_word_char :: "char \<Rightarrow> bool" where
  "is_word_char c = (is_alnum c \<or> c = CHR ''_'')"

text \<open>\<open>needle in hay\<close> on strings: \<open>needle\<close> occurs as a contiguous substring.\<close>

fun contains :: "string \<Rightarrow> string \<Rightarrow> bool" where
  "contains [] needle = (needle = [])"
| "contains (c # cs) needle = (prefix needle (c # cs) \<or> contains cs needle)"

text \<open>
  The \<open>__icontains\<close> lookup: case-insensitive substring match, with the case folding
  of a database that follows Unicode (PostgreSQL compares \<open>UPPER\<close> of both sides; the
  \<open>LIKE\<close> of SQLite folds the ASCII letters only, and agrees on ASCII text).
\<close>

definition icontains :: "string \<Rightarrow> string \<Rightarrow> bool" where
  "icontains hay needle = contains (lower hay) (lower needle)"

section \<open>The persistence schema (corpus/models.py)\<close>

text \<open>
  One record per model class; a table is the list of its rows in insertion order.
  \<open>created_at\<close> and \<open>updated_at\<close> are readings of the clock of the store. The
  timestamps of the child tables and of the activity log, which no operation reads,
  are left out.
\<close>

record cultural_entry =
  pk :: nat
  isiZulu_text :: string
  english_translation :: string
  part_of_speech :: string
  genre :: string
  cultural_context :: string
  source :: string
  frequency :: int
  is_active :: bool
  created_at :: nat
  updated_at :: nat

record usage_example =
  ex_pk :: nat
  ex_entry :: nat
  isiZulu_example :: string
  english_example :: string

record additional_translation =
  tr_pk :: nat
  tr_entry :: nat
  language :: string
  translation :: string

record collocation =
  col_pk :: nat
  col_entry :: nat
  phrase :: string
  col_frequency :: int

record activity_log =
  log_pk :: nat
  log_user :: "nat option"
  action :: string
  description :: string
  ip_address :: "string option"

record db =
  cultural_entries :: "cultural_entry list"
  usage_examples :: "usage_example list"
  additional_translations :: "additional_translation list"
  collocations :: "collocation list"
  activity_logs :: "activity_log list"
  clock :: nat
  frequency_max :: int

text \<open>
  \<open>frequency_max\<close> is the largest value the integer column \<open>frequency\<close> stores:
  2147483647 for the 32-bit column of PostgreSQL and MySQL, 9223372036854775807 on
  SQLite. The database backend is chosen in the settings module, which is not part of
  the sources, so the bound is a component of the store.
\<close>

definition empty_db :: db where
  "empty_db = \<lparr>cultural_entries = [], usage_examples = [], additional_translations = [],
     collocations = [], activity_logs = [], clock = 0, frequency_max = 2147483647\<rparr>"

text \<open>Primary keys are unique within the entry table (the table's primary-key constraint).\<close>

definition wf_db :: "db \<Rightarrow> bool" where
  "wf_db d = distinct (map pk (cultural_entries d))"

text \<open>An automatic primary key: one more than every key of the table.\<close>

definition next_pk :: "nat list \<Rightarrow> nat" where
  "next_pk ks = Suc (fold max ks 0)"

text \<open>
  \<open>Meta.ordering = ['-created_at']\<close>: newest first. Rows with equal \<open>created_at\<close>
  keep their table order.
\<close>

definition order_by_created_desc :: "cultural_entry list \<Rightarrow> cultural_entry list" where
  "order_by_created_desc es = sort_key (\<lambda>e. - int (created_at e)) es"

section \<open>Exceptions\<close>

text \<open>
  The exceptions the modelled code raises. \<open>OutOfRange\<close> stands for what the
  database driver raises for an integer beyond the column's range (\<open>DataError\<close>,
  integer out of range; \<open>OverflowError\<close> on SQLite).
\<close>

datatype error =
  TypeError | AttributeError | KeyError | IntegrityError | Http404 | OutOfRange

section \<open>Activity logging (corpus/services.py, ActivityLogService)\<close>

definition log_activity :: "db \<Rightarrow> nat option \<Rightarrow> string \<Rightarrow> string \<Rightarrow> string option \<Rightarrow> db" where
  "log_activity d user act descr ip =
     d\<lparr>activity_logs := activity_logs d @
        [\<lparr>log_pk = next_pk (map log_pk (activity_logs d)), log_user = user, action = act,
          description = descr, ip_address = ip\<rparr>]\<rparr>"

section \<open>Search (corpus/services.py, SearchService)\<close>

record search_filters =
  f_part_of_speech :: "string option"
  f_genre :: "string option"
  f_language :: "string option"
  f_query :: "string option"

text \<open>
  A row of the query: an entry, joined (LEFT OUTER JOIN) with one of its usage examples
  when the condition mentions \<open>examples__...\<close>.
\<close>

type_synonym q_row = "cultural_entry \<times> usage_example option"

definition truthy :: "string option \<Rightarrow> bool" where
  "truthy v = (case v of None \<Rightarrow> False | Some s \<Rightarrow> s \<noteq> [])"

definition text_query :: "string \<Rightarrow> q_row \<Rightarrow> bool" where
  "text_query query r =
     (icontains (isiZulu_text (fst r)) query \<or>
      icontains (english_translation (fst r)) query \<or>
      icontains (cultural_context (fst r)) query \<or>
      (case snd r of None \<Rightarrow> False | Some x \<Rightarrow> icontains (isiZulu_example x) query) \<or>
      (case snd r of None \<Rightarrow> False | Some x \<Rightarrow> icontains (english_example x) query))"

definition apply_filters :: "(q_row \<Rightarrow> bool) \<Rightarrow> search_filters \<Rightarrow> q_row \<Rightarrow> bool" where
  "apply_filters base_query filters r =
     (base_query r \<and>
      (if truthy (f_part_of_speech filters)
       then Some (part_of_speech (fst r)) = f_part_of_speech filters else True) \<and>
      (if truthy (f_genre filters) then Some (genre (fst r)) = f_genre filters else True) \<and>
      (if f_language filters = Some ''isizulu''
       then icontains (isiZulu_text (fst r)) (case f_query filters of None \<Rightarrow> [] | Some q \<Rightarrow> q)
       else if f_language filters = Some ''english''
       then icontains (english_translation (fst r))
              (case f_query filters of None \<Rightarrow> [] | Some q \<Rightarrow> q)
       else True))"

definition joined_rows :: "db \<Rightarrow> cultural_entry \<Rightarrow> q_row list" where
  "joined_rows d e =
     (case filter (\<lambda>x. ex_entry x = pk e) (usage_examples d) of
        [] \<Rightarrow> [(e, None)]
      | xs \<Rightarrow> map (\<lambda>x. (e, Some x)) xs)"

definition left_join_examples :: "db \<Rightarrow> q_row list" where
  "left_join_examples d = concat (map (joined_rows d) (cultural_entries d))"

text \<open>
  \<open>bulk_update(entries, ['frequency'])\<close>: one statement writing the column by key. A
  value beyond the column's range makes the statement fail as a whole: the exception is
  raised and no row is written.
\<close>

definition bulk_update_frequency :: "db \<Rightarrow> cultural_entry list \<Rightarrow> error + db" where
  "bulk_update_frequency d objs =
     (if \<exists>obj \<in> set objs. frequency_max d < frequency obj then Inl OutOfRange
      else Inr (d\<lparr>cultural_entries :=
        map (\<lambda>row. case find (\<lambda>obj. pk obj = pk row) objs of
                      None \<Rightarrow> row
                    | Some obj \<Rightarrow> row\<lparr>frequency := frequency obj\<rparr>)
            (cultural_entries d)\<rparr>))"

definition update_frequencies ::
  "db \<Rightarrow> cultural_entry list \<Rightarrow> db \<times> (error + cultural_entry list)" where
  "update_frequencies d entries =
     (let objs = map (\<lambda>e. e\<lparr>frequency := frequency e + 1\<rparr>) entries
      in case bulk_update_frequency d objs of
           Inl e \<Rightarrow> (d, Inl e)
         | Inr d' \<Rightarrow> (d', Inr objs))"

text \<open>
  The rows the filtered, de-duplicated query selects, before the counters are touched.
  \<open>filters = None\<close> is the default argument; a dictionary without any key behaves alike.
\<close>

definition search_rows :: "db \<Rightarrow> string \<Rightarrow> search_filters option \<Rightarrow> cultural_entry list" where
  "search_rows d query filters =
     (let q0 = (\<lambda>r. is_active (fst r));
          q1 = (if query \<noteq> [] then (\<lambda>r. q0 r \<and> text_query query r) else q0);
          q2 = (case filters of None \<Rightarrow> q1 | Some f \<Rightarrow> apply_filters q1 f);
          rows = (if query \<noteq> [] then left_join_examples d
                  else map (\<lambda>e. (e, None)) (cultural_entries d))
      in order_by_created_desc (remdups (map fst (filter q2 rows))))"

text \<open>\<open>search_entries\<close>: the \<open>except\<close> clause logs and raises the exception again.\<close>

definition search_entries ::
  "db \<Rightarrow> string \<Rightarrow> search_filters option \<Rightarrow> db \<times> (error + cultural_entry list)" where
  "search_entries d query filters = update_frequencies d (search_rows d query filters)"

section \<open>Python values (the parsed JSON of a request body)\<close>

text \<open>
  A payload is the value \<open>json.loads\<close> builds: \<open>None\<close>, a bool, a number, a string, a
  list or a dict. Numbers are integers (no operation below computes with them); a dict
  is an association list whose keys are taken to be distinct, read first binding first.
\<close>

datatype json =
    JNull
  | JBool bool
  | JNum int
  | JStr string
  | JArr "json list"
  | JObj "(string \<times> json) list"

text \<open>Sequencing of calls that may raise: the first exception ends the computation.\<close>

definition and_then :: "error + 'a \<Rightarrow> ('a \<Rightarrow> error + 'b) \<Rightarrow> error + 'b" where
  "and_then m f = (case m of Inl e \<Rightarrow> Inl e | Inr x \<Rightarrow> f x)"

text \<open>\<open>key in v\<close> for a string key.\<close>

fun py_in :: "string \<Rightarrow> json \<Rightarrow> error + bool" where
  "py_in k (JObj kvs) = Inr (k \<in> set (map fst kvs))"
| "py_in k (JArr xs) = Inr (JStr k \<in> set xs)"
| "py_in k (JStr s) = Inr (contains s k)"
| "py_in k JNull = Inl TypeError"
| "py_in k (JBool b) = Inl TypeError"
| "py_in k (JNum n) = Inl TypeError"

text \<open>\<open>v[key]\<close> for a string key: only a dict can be subscripted by a string.\<close>

fun py_getitem :: "json \<Rightarrow> string \<Rightarrow> error + json" where
  "py_getitem (JObj kvs) k = (case map_of kvs k of None \<Rightarrow> Inl KeyError | Some v \<Rightarrow> Inr v)"
| "py_getitem v k = Inl TypeError"

text \<open>\<open>v.get(key, default)\<close>: a method of dicts only.\<close>

fun py_get :: "json \<Rightarrow> string \<Rightarrow> json \<Rightarrow> error + json" where
  "py_get (JObj kvs) k dflt = (case map_of kvs k of None \<Rightarrow> Inr dflt | Some v \<Rightarrow> Inr v)"
| "py_get v k dflt = Inl AttributeError"

text \<open>\<open>for x in v\<close>: the elements of a list, the keys of a dict, the characters of a string.\<close>

fun py_iter :: "json \<Rightarrow> error + json list" where
  "py_iter (JArr xs) = Inr xs"
| "py_iter (JObj kvs) = Inr (map JStr (remdups (map fst kvs)))"
| "py_iter (JStr s) = Inr (map (\<lambda>c. JStr [c]) s)"
| "py_iter v = Inl TypeError"

text \<open>\<open>v.items()\<close>: a method of dicts only.\<close>

fun py_items :: "json \<Rightarrow> error + (string \<times> json) list" where
  "py_items (JObj kvs) = Inr (map (\<lambda>k. (k, the (map_of kvs k))) (remdups (map fst kvs)))"
| "py_items v = Inl AttributeError"

subsection \<open>\<open>str\<close> and \<open>repr\<close>\<close>

definition digit_char :: "nat \<Rightarrow> char" where
  "digit_char n = ''0123456789abcdef'' ! n"

fun string_of_nat :: "nat \<Rightarrow> string" where
  "string_of_nat n =
     (if n < 10 then [digit_char n]
      else string_of_nat (n div 10) @ [digit_char (n mod 10)])"

declare string_of_nat.simps [simp del]

definition string_of_int :: "int \<Rightarrow> string" where
  "string_of_int i = (if i < 0 then CHR ''-'' # string_of_nat (nat (- i)) else string_of_nat (nat i))"

definition repr_char :: "char \<Rightarrow> char \<Rightarrow> string" where
  "repr_char quote c =
     (let n = (of_char c :: nat) in
      if c = quote \<or> n = 92 then [CHR 0x5C, c]
      else if n = 9 then [CHR 0x5C, CHR ''t'']
      else if n = 10 then [CHR 0x5C, CHR ''n'']
      else if n = 13 then [CHR 0x5C, CHR ''r'']
      else if n < 32 \<or> n = 127 then [CHR 0x5C, CHR ''x'', digit_char (n div 16), digit_char (n mod 16)]
      else [c])"

definition repr_str :: "string \<Rightarrow> string" where
  "repr_str s =
     (let quote = (if CHR 0x27 \<in> set s \<and> CHR 0x22 \<notin> set s then CHR 0x22 else CHR 0x27)
      in quote # concat (map (repr_char quote) s) @ [quote])"

text \<open>\<open>sep.join(xs)\<close>.\<close>

fun join :: "string \<Rightarrow> string list \<Rightarrow> string" where
  "join sep [] = []"
| "join sep [x] = x"
| "join sep (x # y # ys) = x @ sep @ join sep (y # ys)"

fun py_repr :: "json \<Rightarrow> string" where
  "py_repr JNull = ''None''"
| "py_repr (JBool b) = (if b then ''True'' else ''False'')"
| "py_repr (JNum i) = string_of_int i"
| "py_repr (JStr s) = repr_str s"
| "py_repr (JArr xs) = ''['' @ join '', '' (map py_repr xs) @ '']''"
| "py_repr (JObj kvs) =
     ''{'' @ join '', '' (map (\<lambda>(k, v). repr_str k @ '': '' @ py_repr v) kvs) @ ''}''"

text \<open>
  What a text column stores for a value handed to the model (\<open>to_python\<close> of
  \<open>CharField\<close> and \<open>TextField\<close>): a string as it is, \<open>None\<close> as SQL NULL (the result
  \<open>None\<close> here), anything else through \<open>str\<close>.
\<close>

fun get_prep_value :: "json \<Rightarrow> string option" where
  "get_prep_value JNull = None"
| "get_prep_value (JStr s) = Some s"
| "get_prep_value v = Some (py_repr v)"

section \<open>Creating rows\<close>

text \<open>
  The column values of an \<open>INSERT\<close> into the entry table; \<open>None\<close> is SQL NULL. No
  column of the table is nullable, so a NULL is refused with \<open>IntegrityError\<close>.
  \<open>objects.create\<close> runs no validator: \<open>MinLengthValidator\<close> and \<open>choices\<close> are
  checked by forms and serializers only. The length limits of the character columns,
  which only some database backends enforce, are not modelled.
\<close>

record entry_values =
  val_isiZulu_text :: "string option"
  val_english_translation :: "string option"
  val_part_of_speech :: "string option"
  val_genre :: "string option"
  val_cultural_context :: "string option"
  val_source :: "string option"
  val_is_active :: bool

text \<open>
  \<open>CulturalEntry.objects.create(...)\<close> with field keywords: the row gets the next key,
  \<open>frequency = 0\<close> (the field's default) and the clock's reading in both timestamps;
  each write of a row advances the clock by one tick.
\<close>

definition create_cultural_entry :: "db \<Rightarrow> entry_values \<Rightarrow> error + db \<times> cultural_entry" where
  "create_cultural_entry d vals =
     (case (val_isiZulu_text vals, val_english_translation vals, val_part_of_speech vals,
            val_genre vals, val_cultural_context vals, val_source vals) of
        (Some zt, Some et, Some ps, Some g, Some cc, Some src) \<Rightarrow>
          (let entry = \<lparr>pk = next_pk (map pk (cultural_entries d)), isiZulu_text = zt,
                         english_translation = et, part_of_speech = ps, genre = g,
                         cultural_context = cc, source = src, frequency = 0,
                         is_active = val_is_active vals, created_at = clock d,
                         updated_at = clock d\<rparr>
           in Inr (d\<lparr>cultural_entries := cultural_entries d @ [entry], clock := Suc (clock d)\<rparr>,
                   entry))
      | _ \<Rightarrow> Inl IntegrityError)"

definition create_usage_example :: "db \<Rightarrow> nat \<Rightarrow> string \<Rightarrow> string \<Rightarrow> db" where
  "create_usage_example d entry zulu eng =
     d\<lparr>usage_examples := usage_examples d @
        [\<lparr>ex_pk = next_pk (map ex_pk (usage_examples d)), ex_entry = entry,
          isiZulu_example = zulu, english_example = eng\<rparr>]\<rparr>"

text \<open>\<open>unique_together = ['entry', 'language']\<close> is a constraint of the table.\<close>

definition create_additional_translation :: "db \<Rightarrow> nat \<Rightarrow> string \<Rightarrow> string \<Rightarrow> error + db" where
  "create_additional_translation d entry lang txt =
     (if \<exists>t \<in> set (additional_translations d). tr_entry t = entry \<and> language t = lang
      then Inl IntegrityError
      else Inr (d\<lparr>additional_translations := additional_translations d @
        [\<lparr>tr_pk = next_pk (map tr_pk (additional_translations d)), tr_entry = entry,
          language = lang, translation = txt\<rparr>]\<rparr>))"

section \<open>Import (corpus/services.py, DataImportService)\<close>

text \<open>\<open>all(key in entry_data for key in ['isiZulu_text', 'english_translation'])\<close>.\<close>

definition has_required_fields :: "json \<Rightarrow> error + bool" where
  "has_required_fields entry_data =
     and_then (py_in ''isiZulu_text'' entry_data)
       (\<lambda>b. if b then py_in ''english_translation'' entry_data else Inr False)"

text \<open>The keyword arguments of the first \<open>create\<close> call, in the order they are evaluated.\<close>

definition entry_kwargs :: "json \<Rightarrow> error + entry_values" where
  "entry_kwargs entry_data =
     and_then (py_getitem entry_data ''isiZulu_text'') (\<lambda>zt.
     and_then (py_getitem entry_data ''english_translation'') (\<lambda>et.
     and_then (py_get entry_data ''part_of_speech'' (JStr ''cultural'')) (\<lambda>ps.
     and_then (py_get entry_data ''genre'' (JStr ''cultural'')) (\<lambda>g.
     and_then (py_get entry_data ''cultural_context'' (JStr [])) (\<lambda>cc.
     and_then (py_get entry_data ''source'' (JStr [])) (\<lambda>src.
       Inr \<lparr>val_isiZulu_text = get_prep_value zt, val_english_translation = get_prep_value et,
            val_part_of_speech = get_prep_value ps, val_genre = get_prep_value g,
            val_cultural_context = get_prep_value cc, val_source = get_prep_value src,
            val_is_active = True\<rparr>))))))"

text \<open>
  The loop over \<open>entry_data.get('examples', [])\<close>. Its body calls
  \<open>CulturalEntry.objects.create(entry=..., isiZulu_example=..., english_example=...)\<close>:
  once the two \<open>.get\<close> arguments are evaluated, the constructor of \<open>CulturalEntry\<close>
  refuses keywords that are not fields of the model with \<open>TypeError\<close>. The first
  iteration therefore raises, and the loop ends normally only when there is nothing to
  iterate over.
\<close>

definition import_examples :: "db \<Rightarrow> cultural_entry \<Rightarrow> json list \<Rightarrow> error + db" where
  "import_examples d entry examples =
     (case examples of
        [] \<Rightarrow> Inr d
      | example_data # rest \<Rightarrow>
          and_then (py_get example_data ''isizulu'' (JStr [])) (\<lambda>zulu.
          and_then (py_get example_data ''english'' (JStr [])) (\<lambda>eng.
            Inl TypeError)))"

text \<open>
  The loop over \<open>entry_data.get('additional_translations', {}).items()\<close>, whose body is
  \<open>CulturalEntry.objects.create(entry=..., language=..., translation=...)\<close>: again
  \<open>TypeError\<close> in the first iteration.
\<close>

definition import_translations ::
  "db \<Rightarrow> cultural_entry \<Rightarrow> (string \<times> json) list \<Rightarrow> error + db" where
  "import_translations d entry items =
     (case items of
        [] \<Rightarrow> Inr d
      | (lang, txt) # rest \<Rightarrow> Inl TypeError)"

text \<open>What the two inner loops iterate over.\<close>

definition record_examples :: "json \<Rightarrow> error + json list" where
  "record_examples entry_data = and_then (py_get entry_data ''examples'' (JArr [])) py_iter"

definition record_translations :: "json \<Rightarrow> error + (string \<times> json) list" where
  "record_translations entry_data =
     and_then (py_get entry_data ''additional_translations'' (JObj [])) py_items"

text \<open>
  One iteration of the loop over \<open>json_data\<close>; the flag says whether the record was
  counted (\<open>imported_count += 1\<close>) or skipped (\<open>continue\<close>).
\<close>

definition import_record :: "db \<Rightarrow> json \<Rightarrow> error + db \<times> bool" where
  "import_record d entry_data =
     and_then (has_required_fields entry_data) (\<lambda>ok.
       if \<not> ok then Inr (d, False)
       else
         and_then (entry_kwargs entry_data) (\<lambda>vals.
         and_then (create_cultural_entry d vals) (\<lambda>(d1, entry).
         and_then (record_examples entry_data) (\<lambda>examples.
         and_then (import_examples d1 entry examples) (\<lambda>d2.
         and_then (record_translations entry_data) (\<lambda>items.
         and_then (import_translations d2 entry items) (\<lambda>d3.
           Inr (d3, True))))))))"

fun import_loop :: "db \<Rightarrow> nat \<Rightarrow> json list \<Rightarrow> error + db \<times> nat" where
  "import_loop d imported_count [] = Inr (d, imported_count)"
| "import_loop d imported_count (entry_data # rest) =
     and_then (import_record d entry_data)
       (\<lambda>(d', counted). import_loop d' (if counted then imported_count + 1 else imported_count) rest)"

text \<open>
  \<open>@transaction.atomic\<close>: an exception that leaves the function (the \<open>except\<close> clause
  logs and re-raises) rolls every write of the call back; the caller gets the store as
  it was and the exception.
\<close>

definition import_from_json :: "db \<Rightarrow> json list \<Rightarrow> nat option \<Rightarrow> db \<times> (error + nat)" where
  "import_from_json d json_data user =
     (case import_loop d 0 json_data of
        Inl e \<Rightarrow> (d, Inl e)
      | Inr (d', imported_count) \<Rightarrow>
          (log_activity d' user ''import''
             (''Imported '' @ string_of_nat imported_count @ '' entries from JSON'') None,
           Inr imported_count))"

section \<open>Serializers (corpus/serializers.py)\<close>

definition PART_OF_SPEECH_CHOICES :: "(string \<times> string) list" where
  "PART_OF_SPEECH_CHOICES =
     [(''noun'', ''Noun''), (''verb'', ''Verb''), (''adjective'', ''Adjective''),
      (''adverb'', ''Adverb''), (''proverb'', ''Proverb''), (''idiom'', ''Idiom''),
      (''narrative'', ''Narrative''), (''song'', ''Song''), (''greeting'', ''Greeting''),
      (''cultural'', ''Cultural Term'')]"

definition GENRE_CHOICES :: "(string \<times> string) list" where
  "GENRE_CHOICES =
     [(''proverb'', ''Proverb''), (''idiom'', ''Idiom''), (''narrative'', ''Narrative''),
      (''song'', ''Song''), (''greeting'', ''Greeting''), (''cultural'', ''Cultural'')]"

definition LANGUAGE_CHOICES :: "(string \<times> string) list" where
  "LANGUAGE_CHOICES =
     [(''isixhosa'', ''isiXhosa''), (''sesotho'', ''Sesotho''), (''setswana'', ''Setswana''),
      (''tshivenda'', ''Tshivenda''), (''xitsonga'', ''Xitsonga'')]"

text \<open>\<open>get_FOO_display\<close>: the label of a choice, or the value itself when it is no choice.\<close>

definition get_display :: "(string \<times> string) list \<Rightarrow> string \<Rightarrow> string" where
  "get_display choices v = (case map_of choices v of None \<Rightarrow> v | Some label \<Rightarrow> label)"

text \<open>
  The rendering of a timestamp (ISO 8601 in the source) is abstracted to the decimal of
  the clock's reading; no operation parses it back.
\<close>

definition render_time :: "nat \<Rightarrow> json" where
  "render_time t = JStr (string_of_nat t)"

definition usage_example_serializer :: "usage_example \<Rightarrow> json" where
  "usage_example_serializer x =
     JObj [(''id'', JNum (int (ex_pk x))),
           (''isiZulu_example'', JStr (isiZulu_example x)),
           (''english_example'', JStr (english_example x))]"

definition additional_translation_serializer :: "additional_translation \<Rightarrow> json" where
  "additional_translation_serializer t =
     JObj [(''id'', JNum (int (tr_pk t))),
           (''language'', JStr (language t)),
           (''language_display'', JStr (get_display LANGUAGE_CHOICES (language t))),
           (''translation'', JStr (translation t))]"

definition collocation_serializer :: "collocation \<Rightarrow> json" where
  "collocation_serializer c =
     JObj [(''id'', JNum (int (col_pk c))),
           (''phrase'', JStr (phrase c)),
           (''frequency'', JNum (col_frequency c))]"

text \<open>The related managers, each in its model's \<open>Meta.ordering\<close>.\<close>

definition examples_of :: "db \<Rightarrow> cultural_entry \<Rightarrow> usage_example list" where
  "examples_of d e = sort_key ex_pk (filter (\<lambda>x. ex_entry x = pk e) (usage_examples d))"

definition additional_translations_of :: "db \<Rightarrow> cultural_entry \<Rightarrow> additional_translation list" where
  "additional_translations_of d e =
     sort_key language (filter (\<lambda>t. tr_entry t = pk e) (additional_translations d))"

definition collocations_of :: "db \<Rightarrow> cultural_entry \<Rightarrow> collocation list" where
  "collocations_of d e =
     sort_key (\<lambda>c. - col_frequency c) (filter (\<lambda>c. col_entry c = pk e) (collocations d))"

definition cultural_entry_serializer :: "db \<Rightarrow> cultural_entry \<Rightarrow> json" where
  "cultural_entry_serializer d e =
     JObj [(''id'', JNum (int (pk e))),
           (''isiZulu_text'', JStr (isiZulu_text e)),
           (''english_translation'', JStr (english_translation e)),
           (''part_of_speech'', JStr (part_of_speech e)),
           (''part_of_speech_display'', JStr (get_display PART_OF_SPEECH_CHOICES (part_of_speech e))),
           (''genre'', JStr (genre e)),
           (''genre_display'', JStr (get_display GENRE_CHOICES (genre e))),
           (''cultural_context'', JStr (cultural_context e)),
           (''source'', JStr (source e)),
           (''frequency'', JNum (frequency e)),
           (''is_active'', JBool (is_active e)),
           (''examples'', JArr (map usage_example_serializer (examples_of d e))),
           (''additional_translations'',
              JArr (map additional_translation_serializer (additional_translations_of d e))),
           (''collocations'', JArr (map collocation_serializer (collocations_of d e))),
           (''created_at'', render_time (created_at e)),
           (''updated_at'', render_time (updated_at e))]"

definition cultural_entry_list_serializer :: "cultural_entry \<Rightarrow> json" where
  "cultural_entry_list_serializer e =
     JObj [(''id'', JNum (int (pk e))),
           (''isiZulu_text'', JStr (isiZulu_text e)),
           (''english_translation'', JStr (english_translation e)),
           (''part_of_speech'', JStr (part_of_speech e)),
           (''part_of_speech_display'', JStr (get_display PART_OF_SPEECH_CHOICES (part_of_speech e))),
           (''genre'', JStr (genre e)),
           (''frequency'', JNum (frequency e)),
           (''created_at'', render_time (created_at e))]"

text \<open>
  The validated data of a create or update request: a field is \<open>None\<close> when the
  request does not carry it. \<open>frequency\<close>, \<open>id\<close> and the timestamps are read-only
  fields of the serializer and never part of it; \<open>collocations\<close> is read-only too.
\<close>

record validated_data =
  v_isiZulu_text :: "string option"
  v_english_translation :: "string option"
  v_part_of_speech :: "string option"
  v_genre :: "string option"
  v_cultural_context :: "string option"
  v_source :: "string option"
  v_is_active :: "bool option"
  v_examples :: "(string \<times> string) list option"
  v_additional_translations :: "(string \<times> string) list option"

definition or_default :: "'a option \<Rightarrow> 'a \<Rightarrow> 'a" where
  "or_default v dflt = (case v of None \<Rightarrow> dflt | Some x \<Rightarrow> x)"

fun create_examples :: "db \<Rightarrow> nat \<Rightarrow> (string \<times> string) list \<Rightarrow> db" where
  "create_examples d entry [] = d"
| "create_examples d entry ((zulu, eng) # rest) =
     create_examples (create_usage_example d entry zulu eng) entry rest"

text \<open>
  Outside a transaction an exception leaves the rows written before it in place: the
  result carries the store as it is when the exception is raised.
\<close>

fun create_translations :: "db \<Rightarrow> nat \<Rightarrow> (string \<times> string) list \<Rightarrow> db \<times> (error + unit)" where
  "create_translations d entry [] = (d, Inr ())"
| "create_translations d entry ((lang, txt) # rest) =
     (case create_additional_translation d entry lang txt of
        Inl e \<Rightarrow> (d, Inl e)
      | Inr d' \<Rightarrow> create_translations d' entry rest)"

text \<open>\<open>CulturalEntrySerializer.create\<close>; a field the data lacks takes the model's default.\<close>

definition serializer_create :: "db \<Rightarrow> validated_data \<Rightarrow> db \<times> (error + cultural_entry)" where
  "serializer_create d v =
     (case create_cultural_entry d
        \<lparr>val_isiZulu_text = Some (or_default (v_isiZulu_text v) []),
         val_english_translation = Some (or_default (v_english_translation v) []),
         val_part_of_speech = Some (or_default (v_part_of_speech v) []),
         val_genre = Some (or_default (v_genre v) []),
         val_cultural_context = Some (or_default (v_cultural_context v) []),
         val_source = Some (or_default (v_source v) []),
         val_is_active = or_default (v_is_active v) True\<rparr> of
        Inl e \<Rightarrow> (d, Inl e)
      | Inr (d1, entry) \<Rightarrow>
          (let d2 = create_examples d1 (pk entry) (or_default (v_examples v) [])
           in case create_translations d2 (pk entry) (or_default (v_additional_translations v) []) of
                (d3, Inl e) \<Rightarrow> (d3, Inl e)
              | (d3, Inr u) \<Rightarrow> (d3, Inr entry)))"

text \<open>\<open>instance.save()\<close>: every column of the row with the instance's key is written.\<close>

definition save_entry :: "db \<Rightarrow> cultural_entry \<Rightarrow> db \<times> cultural_entry" where
  "save_entry d instance =
     (let saved = instance\<lparr>updated_at := clock d\<rparr>
      in (d\<lparr>cultural_entries :=
              map (\<lambda>row. if pk row = pk instance then saved else row) (cultural_entries d),
            clock := Suc (clock d)\<rparr>,
          saved))"

text \<open>\<open>CulturalEntrySerializer.update\<close>: children, when supplied, are replaced as a whole.\<close>

definition serializer_update ::
  "db \<Rightarrow> cultural_entry \<Rightarrow> validated_data \<Rightarrow> db \<times> (error + cultural_entry)" where
  "serializer_update d instance v =
     (let changed = instance
            \<lparr>isiZulu_text := or_default (v_isiZulu_text v) (isiZulu_text instance),
             english_translation := or_default (v_english_translation v) (english_translation instance),
             part_of_speech := or_default (v_part_of_speech v) (part_of_speech instance),
             genre := or_default (v_genre v) (genre instance),
             cultural_context := or_default (v_cultural_context v) (cultural_context instance),
             source := or_default (v_source v) (source instance),
             is_active := or_default (v_is_active v) (is_active instance)\<rparr>;
          (d1, saved) = save_entry d changed;
          d2 = (case v_examples v of
                  None \<Rightarrow> d1
                | Some examples_data \<Rightarrow>
                    create_examples
                      (d1\<lparr>usage_examples :=
                           filter (\<lambda>x. ex_entry x \<noteq> pk saved) (usage_examples d1)\<rparr>)
                      (pk saved) examples_data)
      in case v_additional_translations v of
           None \<Rightarrow> (d2, Inr saved)
         | Some translations_data \<Rightarrow>
             (case create_translations
                     (d2\<lparr>additional_translations :=
                          filter (\<lambda>t. tr_entry t \<noteq> pk saved) (additional_translations d2)\<rparr>)
                     (pk saved) translations_data of
                (d3, Inl e) \<Rightarrow> (d3, Inl e)
              | (d3, Inr u) \<Rightarrow> (d3, Inr saved)))"

section \<open>The view set (corpus/views.py)\<close>

text \<open>
  What a view reads of the request apart from its parameters: the authenticated user
  (\<open>None\<close> for an anonymous request) and the two headers \<open>get_client_ip\<close> looks at.
\<close>

record request =
  req_user :: "nat option"
  http_x_forwarded_for :: "string option"
  remote_addr :: "string option"

datatype response = Response nat json | PaginatedResponse json

definition get_client_ip :: "request \<Rightarrow> string option" where
  "get_client_ip r =
     (case http_x_forwarded_for r of
        None \<Rightarrow> remote_addr r
      | Some x_forwarded_for \<Rightarrow>
          if x_forwarded_for = [] then remote_addr r
          else Some (takeWhile (\<lambda>c. c \<noteq> CHR '','') x_forwarded_for))"

text \<open>\<open>queryset = CulturalEntry.objects.filter(is_active=True)\<close>, in the model's ordering.\<close>

definition get_queryset :: "db \<Rightarrow> cultural_entry list" where
  "get_queryset d = order_by_created_desc (filter is_active (cultural_entries d))"

text \<open>\<open>get_object\<close>: the row of the queryset with the key of the URL, or a 404.\<close>

definition get_object :: "db \<Rightarrow> nat \<Rightarrow> error + cultural_entry" where
  "get_object d k =
     (case find (\<lambda>e. pk e = k) (get_queryset d) of None \<Rightarrow> Inl Http404 | Some e \<Rightarrow> Inr e)"

definition retrieve :: "db \<Rightarrow> nat \<Rightarrow> error + json" where
  "retrieve d k = and_then (get_object d k) (\<lambda>e. Inr (cultural_entry_serializer d e))"

text \<open>The filter set of the list view (corpus/filters.py); an absent parameter filters nothing.\<close>

record entry_filter =
  flt_isiZulu_text :: "string option"
  flt_english_translation :: "string option"
  flt_part_of_speech :: "string option"
  flt_genre :: "string option"
  flt_frequency :: "int option"
  flt_min_frequency :: "int option"
  flt_max_frequency :: "int option"

definition passes :: "'a option \<Rightarrow> ('a \<Rightarrow> bool) \<Rightarrow> bool" where
  "passes param test = (case param of None \<Rightarrow> True | Some v \<Rightarrow> test v)"

definition filter_queryset :: "entry_filter \<Rightarrow> cultural_entry list \<Rightarrow> cultural_entry list" where
  "filter_queryset f qs =
     filter (\<lambda>e. passes (flt_isiZulu_text f) (\<lambda>v. v = [] \<or> icontains (isiZulu_text e) v) \<and>
                 passes (flt_english_translation f) (\<lambda>v. v = [] \<or> icontains (english_translation e) v) \<and>
                 passes (flt_part_of_speech f) (\<lambda>v. v = [] \<or> part_of_speech e = v) \<and>
                 passes (flt_genre f) (\<lambda>v. v = [] \<or> genre e = v) \<and>
                 passes (flt_frequency f) (\<lambda>v. frequency e = v) \<and>
                 passes (flt_min_frequency f) (\<lambda>v. v \<le> frequency e) \<and>
                 passes (flt_max_frequency f) (\<lambda>v. frequency e \<le> v)) qs"

definition list_entries :: "db \<Rightarrow> entry_filter \<Rightarrow> cultural_entry list" where
  "list_entries d f = filter_queryset f (get_queryset d)"

text \<open>
  \<open>perform_create\<close>, \<open>perform_update\<close> and \<open>perform_destroy\<close> save first and log
  afterwards. The logging call passes \<open>ip_address=self.get_client_ip()\<close>, without the
  \<open>request\<close> argument the method requires: evaluating the arguments raises
  \<open>TypeError\<close> before \<open>log_activity\<close> is entered, so no log row is written and the
  exception leaves the view. The save before it is not undone: requests run in
  autocommit mode (Django's default; the settings module is not part of the sources).
\<close>

definition perform_create :: "db \<Rightarrow> validated_data \<Rightarrow> db \<times> (error + cultural_entry)" where
  "perform_create d v =
     (case serializer_create d v of
        (d1, Inl e) \<Rightarrow> (d1, Inl e)
      | (d1, Inr entry) \<Rightarrow> (d1, Inl TypeError))"

definition perform_update ::
  "db \<Rightarrow> cultural_entry \<Rightarrow> validated_data \<Rightarrow> db \<times> (error + cultural_entry)" where
  "perform_update d instance v =
     (case serializer_update d instance v of
        (d1, Inl e) \<Rightarrow> (d1, Inl e)
      | (d1, Inr saved) \<Rightarrow> (d1, Inl TypeError))"

definition perform_destroy :: "db \<Rightarrow> cultural_entry \<Rightarrow> db \<times> (error + unit)" where
  "perform_destroy d instance =
     (let (d1, saved) = save_entry d (instance\<lparr>is_active := False\<rparr>)
      in (d1, Inl TypeError))"

definition update :: "db \<Rightarrow> nat \<Rightarrow> validated_data \<Rightarrow> db \<times> (error + cultural_entry)" where
  "update d k v =
     (case get_object d k of Inl e \<Rightarrow> (d, Inl e) | Inr instance \<Rightarrow> perform_update d instance v)"

definition destroy :: "db \<Rightarrow> nat \<Rightarrow> db \<times> (error + unit)" where
  "destroy d k =
     (case get_object d k of Inl e \<Rightarrow> (d, Inl e) | Inr instance \<Rightarrow> perform_destroy d instance)"

record search_params =
  param_q :: "string option"
  param_part_of_speech :: "string option"
  param_genre :: "string option"
  param_language :: "string option"

text \<open>
  The \<open>search\<close> action. The paginator (\<open>StandardPagination\<close>, corpus/pagination.py) is
  not part of the sources: \<open>paginate\<close> stands for \<open>self.paginate_queryset\<close>, which
  returns a page, or \<open>None\<close> when pagination is off, or raises; a paginated response is
  the constructor \<open>PaginatedResponse\<close> around the serialized page.
\<close>

definition search ::
  "(cultural_entry list \<Rightarrow> error + cultural_entry list option) \<Rightarrow> db \<Rightarrow> request \<Rightarrow>
     search_params \<Rightarrow> db \<times> response" where
  "search paginate d req params =
     (let query = or_default (param_q params) [];
          filters = \<lparr>f_part_of_speech = param_part_of_speech params,
                     f_genre = param_genre params,
                     f_language = param_language params,
                     f_query = Some query\<rparr>;
          (d1, found) = search_entries d query (Some filters)
      in case found of
           Inl e \<Rightarrow> (d1, Response 500 (JObj [(''error'', JStr ''Search failed'')]))
         | Inr results \<Rightarrow>
             (case paginate results of
                Inl e \<Rightarrow> (d1, Response 500 (JObj [(''error'', JStr ''Search failed'')]))
              | Inr (Some page) \<Rightarrow>
                  (d1, PaginatedResponse (JArr (map cultural_entry_list_serializer page)))
              | Inr None \<Rightarrow>
                  (log_activity d1 (req_user req) ''search'' (''Searched for: '' @ query)
                     (get_client_ip req),
                   Response 200 (JArr (map cultural_entry_list_serializer results)))))"

definition import_data :: "db \<Rightarrow> request \<Rightarrow> json \<Rightarrow> db \<times> response" where
  "import_data d req json_data =
     (case json_data of
        JArr records \<Rightarrow>
          (case import_from_json d records (req_user req) of
             (d', Inl e) \<Rightarrow> (d', Response 500 (JObj [(''error'', JStr ''Import failed'')]))
           | (d', Inr imported_count) \<Rightarrow>
               (d', Response 200
                  (JObj [(''message'',
                            JStr (''Successfully imported '' @ string_of_nat imported_count @
                                  '' entries'')),
                         (''imported_count'', JNum (int imported_count))])))
      | _ \<Rightarrow> (d, Response 400 (JObj [(''error'', JStr ''Data must be a list of entries'')])))"

definition export_data :: "db \<Rightarrow> request \<Rightarrow> db \<times> json list" where
  "export_data d req =
     (let entries = order_by_created_desc (filter is_active (cultural_entries d))
      in (log_activity d (req_user req) ''export'' ''Exported corpus data'' (get_client_ip req),
          map (cultural_entry_serializer d) entries))"

section \<open>Analytics (analytics/services.py)\<close>

text \<open>
  The maximal runs of the characters of a class, left to right; \<open>run\<close> is the run
  being read.
\<close>

fun runs_of :: "(char \<Rightarrow> bool) \<Rightarrow> string \<Rightarrow> string \<Rightarrow> string list" where
  "runs_of P run [] = (if run = [] then [] else [run])"
| "runs_of P run (c # cs) =
     (if P c then runs_of P (run @ [c]) cs
      else (if run = [] then [] else [run]) @ runs_of P [] cs)"

text \<open>\<open>re.findall(r'\b\w+\b', s)\<close>: the maximal runs of word characters.\<close>

definition findall_words :: "string \<Rightarrow> string list" where
  "findall_words s = runs_of is_word_char [] s"

text \<open>\<open>Counter(words)\<close>: a count per word, the words in the order they are first met.\<close>

fun counter_add :: "(string \<times> nat) list \<Rightarrow> string \<Rightarrow> (string \<times> nat) list" where
  "counter_add [] w = [(w, 1)]"
| "counter_add ((k, n) # rest) w =
     (if k = w then (k, n + 1) # rest else (k, n) # counter_add rest w)"

definition counter :: "string list \<Rightarrow> (string \<times> nat) list" where
  "counter ws = fold (\<lambda>w acc. counter_add acc w) ws []"

text \<open>
  \<open>most_common(n)\<close>: the \<open>n\<close> largest counts, largest first, equal counts in the order of
  the counter; nothing for \<open>n \<le> 0\<close>.
\<close>

definition most_common :: "int \<Rightarrow> (string \<times> nat) list \<Rightarrow> (string \<times> nat) list" where
  "most_common n items = take (nat n) (sort_key (\<lambda>item. - int (snd item)) items)"

definition get_word_frequency :: "db \<Rightarrow> int \<Rightarrow> (string \<times> nat) list" where
  "get_word_frequency d limit =
     (let all_text = join '' '' (map isiZulu_text (order_by_created_desc
                                   (filter is_active (cultural_entries d))));
          ws = findall_words (lower all_text)
      in most_common limit (counter ws))"

text \<open>
  The word frequency as the specification words it, for comparison: the tokens are the
  runs of alphanumeric characters; everything else is as in \<open>get_word_frequency\<close>.
\<close>

definition spec_word_frequency :: "db \<Rightarrow> int \<Rightarrow> (string \<times> nat) list" where
  "spec_word_frequency d limit =
     (let all_text = join '' '' (map isiZulu_text (order_by_created_desc
                                   (filter is_active (cultural_entries d))));
          ws = runs_of is_alnum [] (lower all_text)
      in most_common limit (counter ws))"

text \<open>The words of the corpus as the analytics reads them, and the distinct ones in the
  order they are first met.\<close>

definition corpus_words :: "db \<Rightarrow> string list" where
  "corpus_words d =
     findall_words (lower (join '' '' (map isiZulu_text (order_by_created_desc
                                   (filter is_active (cultural_entries d))))))"

definition first_met :: "string list \<Rightarrow> string list" where
  "first_met ws = rev (remdups (rev ws))"

section \<open>The API as a state machine\<close>

datatype api_call =
    List_call entry_filter
  | Retrieve_call nat
  | Create_call validated_data
  | Update_call nat validated_data
  | Destroy_call nat
  | Search_call request search_params
  | Import_call request json
  | Export_call request
  | Word_frequency_call int

text \<open>The store after one call of the API.\<close>

definition handle ::
  "(cultural_entry list \<Rightarrow> error + cultural_entry list option) \<Rightarrow> db \<Rightarrow> api_call \<Rightarrow> db" where
  "handle paginate d call =
     (case call of
        List_call f \<Rightarrow> d
      | Retrieve_call k \<Rightarrow> d
      | Create_call v \<Rightarrow> fst (perform_create d v)
      | Update_call k v \<Rightarrow> fst (update d k v)
      | Destroy_call k \<Rightarrow> fst (destroy d k)
      | Search_call req params \<Rightarrow> fst (search paginate d req params)
      | Import_call req json_data \<Rightarrow> fst (import_data d req json_data)
      | Export_call req \<Rightarrow> fst (export_data d req)
      | Word_frequency_call limit \<Rightarrow> d)"

text \<open>A sequence of calls, one after the other.\<close>

definition run ::
  "(cultural_entry list \<Rightarrow> error + cultural_entry list option) \<Rightarrow> db \<Rightarrow> api_call list \<Rightarrow> db" where
  "run paginate d calls = foldl (handle paginate) d calls"

text \<open>The same search, \<open>n\<close> times in a row.\<close>

fun search_n :: "nat \<Rightarrow> db \<Rightarrow> string \<Rightarrow> search_filters option \<Rightarrow> db" where
  "search_n 0 d query filters = d"
| "search_n (Suc n) d query filters =
     fst (search_entries (search_n n d query filters) query filters)"

text \<open>The stored counter of the entry with a given key.\<close>

definition frequency_of :: "db \<Rightarrow> nat \<Rightarrow> int option" where
  "frequency_of d k = map_option frequency (find (\<lambda>e. pk e = k) (cultural_entries d))"

section \<open>Notions used in the statements and proofs\<close>

text \<open>A function on entries that changes nothing but the counter.\<close>

definition only_frequency :: "(cultural_entry \<Rightarrow> cultural_entry) \<Rightarrow> bool" where
  "only_frequency g = (\<forall>e. g e = e\<lparr>frequency := frequency (g e)\<rparr>)"

definition add_frequency :: "cultural_entry set \<Rightarrow> nat \<Rightarrow> cultural_entry \<Rightarrow> cultural_entry" where
  "add_frequency R n row = (if row \<in> R then row\<lparr>frequency := frequency row + int n\<rparr> else row)"

text \<open>
  The second store is well-formed, still has every key of the first, and no counter in
  it is below the one the first store holds for the same key.
\<close>

definition keeps_counters :: "db \<Rightarrow> db \<Rightarrow> bool" where
  "keeps_counters d d' =
     (wf_db d' \<and> (\<forall>e \<in> set (cultural_entries d). \<exists>e' \<in> set (cultural_entries d').
         pk e' = pk e \<and> frequency e \<le> frequency e'))"

text \<open>A record of an import batch that passes the check of the required keys.\<close>

definition accepted :: "json \<Rightarrow> bool" where
  "accepted entry_data = (has_required_fields entry_data = Inr True)"

text \<open>The column values a stored entry was created from.\<close>

definition entry_values_of :: "cultural_entry \<Rightarrow> entry_values" where
  "entry_values_of e =
     \<lparr>val_isiZulu_text = Some (isiZulu_text e),
      val_english_translation = Some (english_translation e),
      val_part_of_speech = Some (part_of_speech e),
      val_genre = Some (genre e),
      val_cultural_context = Some (cultural_context e),
      val_source = Some (source e),
      val_is_active = is_active e\<rparr>"

section \<open>Example payloads\<close>

text \<open>The first record of the seed command (corpus/management/commands/seed_data.py).\<close>

definition seed_ubuntu :: json where
  "seed_ubuntu =
     JObj [(''isiZulu_text'', JStr ''Ubuntu''),
           (''english_translation'', JStr ''Humanity, human kindness''),
           (''part_of_speech'', JStr ''noun''),
           (''genre'', JStr ''cultural''),
           (''cultural_context'',
              JStr ''Philosophical concept emphasizing shared humanity and interconnectedness''),
           (''source'', JStr ''Traditional philosophy''),
           (''examples'',
              JArr [JObj [(''isizulu'', JStr ''Ubuntu ngumuntu ngabantu''),
                          (''english'', JStr ''A person is a person through other people'')]]),
           (''additional_translations'',
              JObj [(''isixhosa'', JStr ''Ubuntu''), (''sesotho'', JStr ''Botho'')])]"

text \<open>Records of an import batch: a complete one, and one without translation.\<close>

definition record_sawubona :: json where
  "record_sawubona =
     JObj [(''isiZulu_text'', JStr ''Sawubona''), (''english_translation'', JStr ''Hello'')]"

definition record_no_translation :: json where
  "record_no_translation = JObj [(''isiZulu_text'', JStr ''Yebo'')]"

text \<open>A store with two entries; both usage examples of the first mention \<open>ubuntu\<close>.\<close>

definition entry_ubuntu :: cultural_entry where
  "entry_ubuntu =
     \<lparr>pk = 1, isiZulu_text = ''Ubuntu'', english_translation = ''Humanity, human kindness'',
      part_of_speech = ''noun'', genre = ''cultural'',
      cultural_context = ''Shared humanity'', source = ''Traditional philosophy'',
      frequency = 0, is_active = True, created_at = 0, updated_at = 0\<rparr>"

definition entry_indlela :: cultural_entry where
  "entry_indlela =
     \<lparr>pk = 2, isiZulu_text = ''Indlela ibuzwa kwabaphambili'',
      english_translation = ''The way is asked from those who have gone before'',
      part_of_speech = ''proverb'', genre = ''proverb'',
      cultural_context = ''Learning from elders'', source = ''Traditional proverb'',
      frequency = 0, is_active = True, created_at = 1, updated_at = 1\<rparr>"

definition example_db :: db where
  "example_db =
     \<lparr>cultural_entries = [entry_ubuntu, entry_indlela],
      usage_examples =
        [\<lparr>ex_pk = 1, ex_entry = 1, isiZulu_example = ''Ubuntu ngumuntu ngabantu'',
          english_example = ''A person is a person through other people''\<rparr>,
         \<lparr>ex_pk = 2, ex_entry = 1, isiZulu_example = ''Umuntu unobuntu'',
          english_example = ''The person has ubuntu''\<rparr>],
      additional_translations = [], collocations = [], activity_logs = [], clock = 2,
      frequency_max = 2147483647\<rparr>"

text \<open>A store with one active entry and no child rows.\<close>

definition one_entry_db :: db where
  "one_entry_db = empty_db\<lparr>cultural_entries := [entry_ubuntu], clock := 1\<rparr>"

text \<open>A corpus in which \<open>Ubuntu\<close> occurs three times and \<open>ngumuntu\<close> twice.\<close>

definition ubuntu_corpus :: db where
  "ubuntu_corpus =
     empty_db\<lparr>cultural_entries :=
        [entry_ubuntu\<lparr>isiZulu_text := ''Ubuntu ngumuntu''\<rparr>,
         entry_indlela\<lparr>isiZulu_text := ''ubuntu, Ubuntu ngumuntu!''\<rparr>],
       clock := 2\<rparr>"

text \<open>A corpus whose only text starts with a capital E with an acute accent.\<close>

definition accent_corpus :: db where
  "accent_corpus =
     empty_db\<lparr>cultural_entries := [entry_ubuntu\<lparr>isiZulu_text := CHR 0xC9 # ''mile ubuntu''\<rparr>],
       clock := 1\<rparr>"

text \<open>A corpus whose only text has an underscore between two words.\<close>

definition underscore_corpus :: db where
  "underscore_corpus =
     empty_db\<lparr>cultural_entries := [entry_ubuntu\<lparr>isiZulu_text := ''umuntu_omusha''\<rparr>],
       clock := 1\<rparr>"

text \<open>The example store with the counter of \<open>Ubuntu\<close> at the column's bound \<open>m\<close>.\<close>

definition full_counter_db :: "int \<Rightarrow> db" where
  "full_counter_db m =
     example_db\<lparr>cultural_entries := [entry_ubuntu\<lparr>frequency := m\<rparr>, entry_indlela],
       frequency_max := m\<rparr>"

definition anonymous :: request where
  "anonymous = \<lparr>req_user = None, http_x_forwarded_for = None, remote_addr = None\<rparr>"

section \<open>Properties of the search service\<close>

lemma joined_rows_fst: "r \<in> set (joined_rows d e) \<Longrightarrow> fst r = e"
  by (cases "filter (\<lambda>x. ex_entry x = pk e) (usage_examples d)")
     (auto simp: joined_rows_def)

lemma left_join_examples_fst:
  "r \<in> set (left_join_examples d) \<Longrightarrow> fst r \<in> set (cultural_entries d)"
  unfolding left_join_examples_def
  by (auto dest: joined_rows_fst)

lemma search_rows_subset:
  "set (search_rows d query filters) \<subseteq> set (cultural_entries d)"
  by (auto simp: search_rows_def order_by_created_desc_def Let_def
      dest: left_join_examples_fst split: if_splits)

lemma search_entries_eq:
  "search_entries d q f =
     (if \<exists>e \<in> set (search_rows d q f). frequency_max d \<le> frequency e
      then (d, Inl OutOfRange)
      else (d\<lparr>cultural_entries :=
               map (\<lambda>row. case find (\<lambda>obj. pk obj = pk row)
                                  (map (\<lambda>e. e\<lparr>frequency := frequency e + 1\<rparr>)
                                     (search_rows d q f)) of
                             None \<Rightarrow> row
                           | Some obj \<Rightarrow> row\<lparr>frequency := frequency obj\<rparr>)
                   (cultural_entries d)\<rparr>,
            Inr (map (\<lambda>e. e\<lparr>frequency := frequency e + 1\<rparr>) (search_rows d q f))))"
proof -
  have "(\<exists>obj \<in> set (map (\<lambda>e. e\<lparr>frequency := frequency e + 1\<rparr>) (search_rows d q f)).
           frequency_max d < frequency obj) =
        (\<exists>e \<in> set (search_rows d q f). frequency_max d \<le> frequency e)"
    by auto
  then show ?thesis
    by (simp add: search_entries_def update_frequencies_def bulk_update_frequency_def Let_def
        del: set_map)
qed

lemma search_entries_Inl:
  "snd (search_entries d q f) = Inl e \<Longrightarrow> fst (search_entries d q f) = d"
  by (cases "\<exists>e \<in> set (search_rows d q f). frequency_max d \<le> frequency e")
     (simp_all add: search_entries_eq)

lemma search_entries_Inr:
  "snd (search_entries d q f) = Inr results \<Longrightarrow>
     results = map (\<lambda>e. e\<lparr>frequency := frequency e + 1\<rparr>) (search_rows d q f) \<and>
     (\<forall>e \<in> set (search_rows d q f). frequency e < frequency_max d)"
  by (auto simp: search_entries_eq split: if_splits)

lemma search_entries_logs: "activity_logs (fst (search_entries d q f)) = activity_logs d"
  by (simp add: search_entries_eq)

lemma search_entries_frame:
  "fst (search_entries d q f) = d\<lparr>cultural_entries := cultural_entries (fst (search_entries d q f))\<rparr>"
  by (simp add: search_entries_eq)

lemma wf_db_inj: "wf_db d \<Longrightarrow> inj_on pk (set (cultural_entries d))"
  by (simp add: wf_db_def distinct_map)

lemma search_rows_distinct: "distinct (search_rows d q f)"
  by (simp add: search_rows_def order_by_created_desc_def Let_def)

lemma search_rows_distinct_pk:
  assumes "wf_db d" shows "distinct (map pk (search_rows d q f))"
proof -
  have "inj_on pk (set (search_rows d q f))"
    using wf_db_inj[OF assms] search_rows_subset[of d q f] by (rule inj_on_subset)
  then show ?thesis by (simp add: distinct_map search_rows_distinct)
qed

lemma find_bumped:
  assumes inj: "inj_on pk (set es)" and sub: "set rs \<subseteq> set es" and row: "row \<in> set es"
  shows "find (\<lambda>obj. pk obj = pk row) (map (\<lambda>e. e\<lparr>frequency := frequency e + 1\<rparr>) rs) =
         (if row \<in> set rs then Some (row\<lparr>frequency := frequency row + 1\<rparr>) else None)"
  using sub
proof (induction rs)
  case Nil then show ?case by simp
next
  case (Cons r rs)
  then have r: "r \<in> set es" and sub': "set rs \<subseteq> set es" by auto
  have eq: "pk r = pk row \<longleftrightarrow> r = row"
    using inj r row by (auto dest: inj_onD)
  show ?case using Cons.IH[OF sub'] eq by auto
qed

lemma fst_search_entries:
  assumes "wf_db d" and "\<forall>e \<in> set (search_rows d q f). frequency e < frequency_max d"
  shows "cultural_entries (fst (search_entries d q f)) =
         map (\<lambda>row. if row \<in> set (search_rows d q f) then row\<lparr>frequency := frequency row + 1\<rparr> else row)
             (cultural_entries d)"
proof -
  have "\<And>row. row \<in> set (cultural_entries d) \<Longrightarrow>
     (case find (\<lambda>obj. pk obj = pk row) (map (\<lambda>e. e\<lparr>frequency := frequency e + 1\<rparr>) (search_rows d q f)) of
        None \<Rightarrow> row | Some obj \<Rightarrow> row\<lparr>frequency := frequency obj\<rparr>) =
     (if row \<in> set (search_rows d q f) then row\<lparr>frequency := frequency row + 1\<rparr> else row)"
    using find_bumped[OF wf_db_inj[OF assms(1)] search_rows_subset] by simp
  moreover have "\<not> (\<exists>e \<in> set (search_rows d q f). frequency_max d \<le> frequency e)"
    using assms(2) by auto
  ultimately show ?thesis
    by (simp add: search_entries_eq)
qed

lemma only_frequency_fields:
  assumes "only_frequency g"
  shows "pk (g e) = pk e" "isiZulu_text (g e) = isiZulu_text e"
    "english_translation (g e) = english_translation e" "part_of_speech (g e) = part_of_speech e"
    "genre (g e) = genre e" "cultural_context (g e) = cultural_context e"
    "is_active (g e) = is_active e" "created_at (g e) = created_at e"
proof -
  have e: "g e = e\<lparr>frequency := frequency (g e)\<rparr>"
    using assms unfolding only_frequency_def by blast
  show "pk (g e) = pk e" by (subst e) simp
  show "isiZulu_text (g e) = isiZulu_text e" by (subst e) simp
  show "english_translation (g e) = english_translation e" by (subst e) simp
  show "part_of_speech (g e) = part_of_speech e" by (subst e) simp
  show "genre (g e) = genre e" by (subst e) simp
  show "cultural_context (g e) = cultural_context e" by (subst e) simp
  show "is_active (g e) = is_active e" by (subst e) simp
  show "created_at (g e) = created_at e" by (subst e) simp
qed

lemma remdups_map_inj_on:
  "inj_on f (set xs) \<Longrightarrow> remdups (map f xs) = map f (remdups xs)"
  by (induction xs) (auto simp: inj_on_def)

lemma insort_key_map_commute:
  assumes "\<And>x. k (g x) = k x"
  shows "insort_key k (g x) (map g xs) = map g (insort_key k x xs)"
  by (induction xs) (auto simp: assms)

lemma sort_key_map_commute:
  assumes "\<And>x. k (g x) = k x"
  shows "sort_key k (map g xs) = map g (sort_key k xs)"
proof (induction xs)
  case Nil show ?case by simp
next
  case (Cons x xs)
  have "insort_key k (g x) (map g (sort_key k xs)) = map g (insort_key k x (sort_key k xs))"
    by (rule insort_key_map_commute) (rule assms)
  with Cons show ?case by simp
qed

lemma joined_rows_map:
  assumes "only_frequency g"
  shows "joined_rows (d\<lparr>cultural_entries := es'\<rparr>) (g e) = map (apfst g) (joined_rows d e)"
  by (cases "filter (\<lambda>x. ex_entry x = pk e) (usage_examples d)")
     (simp_all add: joined_rows_def only_frequency_fields[OF assms])

lemma left_join_examples_map:
  assumes "only_frequency g"
  shows "left_join_examples (d\<lparr>cultural_entries := map g (cultural_entries d)\<rparr>) =
         map (apfst g) (left_join_examples d)"
  by (simp add: left_join_examples_def map_concat comp_def joined_rows_map[OF assms])

lemma text_query_apfst:
  "only_frequency g \<Longrightarrow> text_query q (apfst g r) = text_query q r"
  by (simp add: text_query_def only_frequency_fields)

lemma apply_filters_apfst:
  assumes "only_frequency g" and "base (apfst g r) = base r"
  shows "apply_filters base f (apfst g r) = apply_filters base f r"
  using assms(2) by (simp add: apply_filters_def only_frequency_fields[OF assms(1)])

lemma search_rows_map:
  assumes g: "only_frequency g" and inj: "inj_on g (set (cultural_entries d))"
  shows "search_rows (d\<lparr>cultural_entries := map g (cultural_entries d)\<rparr>) q f =
         map g (search_rows d q f)"
proof -
  define q0 :: "q_row \<Rightarrow> bool" where "q0 = (\<lambda>r. is_active (fst r))"
  define q1 where "q1 = (if q \<noteq> [] then (\<lambda>r. q0 r \<and> text_query q r) else q0)"
  define q2 where "q2 = (case f of None \<Rightarrow> q1 | Some fl \<Rightarrow> apply_filters q1 fl)"
  define rows where "rows = (if q \<noteq> [] then left_join_examples d
                  else map (\<lambda>e. (e, None)) (cultural_entries d))"
  define rows' where "rows' = (if q \<noteq> [] then left_join_examples (d\<lparr>cultural_entries := map g (cultural_entries d)\<rparr>)
                  else map (\<lambda>e. (e, None)) (map g (cultural_entries d)))"
  have q0: "\<And>r. q0 (apfst g r) = q0 r"
    by (simp add: q0_def only_frequency_fields[OF g])
  have q1: "\<And>r. q1 (apfst g r) = q1 r"
    by (simp add: q1_def q0 text_query_apfst[OF g])
  have q2: "\<And>r. q2 (apfst g r) = q2 r"
    by (cases f) (simp_all add: q2_def q1 apply_filters_apfst[OF g])
  have rows: "rows' = map (apfst g) rows"
    by (simp add: rows'_def rows_def left_join_examples_map[OF g] comp_def)
  have sub: "set (map fst (filter q2 rows)) \<subseteq> set (cultural_entries d)"
    by (auto simp: rows_def dest: left_join_examples_fst split: if_splits)
  have "map fst (filter q2 rows') = map g (map fst (filter q2 rows))"
    by (simp add: rows filter_map comp_def q2)
  moreover have "inj_on g (set (map fst (filter q2 rows)))"
    using inj sub by (rule inj_on_subset)
  ultimately have "remdups (map fst (filter q2 rows')) = map g (remdups (map fst (filter q2 rows)))"
    by (simp only: remdups_map_inj_on)
  then have "order_by_created_desc (remdups (map fst (filter q2 rows'))) =
     map g (order_by_created_desc (remdups (map fst (filter q2 rows))))"
    unfolding order_by_created_desc_def
    by (simp add: sort_key_map_commute[where g = g] only_frequency_fields[OF g])
  moreover have "search_rows (d\<lparr>cultural_entries := map g (cultural_entries d)\<rparr>) q f =
      order_by_created_desc (remdups (map fst (filter q2 rows')))"
    unfolding search_rows_def Let_def q2_def q1_def q0_def rows'_def by simp
  moreover have "search_rows d q f = order_by_created_desc (remdups (map fst (filter q2 rows)))"
    unfolding search_rows_def Let_def q2_def q1_def q0_def rows_def by simp
  ultimately show ?thesis by simp
qed

lemma only_frequency_add: "only_frequency (add_frequency R n)"
  by (simp add: only_frequency_def add_frequency_def)

lemma pk_add_frequency [simp]: "pk (add_frequency R n e) = pk e"
  by (simp add: add_frequency_def)

lemma inj_on_add_frequency:
  "inj_on pk A \<Longrightarrow> inj_on (add_frequency R n) A"
  by (rule inj_onI) (metis inj_onD pk_add_frequency)

lemma search_n_entries:
  assumes wf: "wf_db d"
    and rng: "\<forall>e \<in> set (search_rows d q f). frequency e + int n \<le> frequency_max d"
  shows "search_n n d q f =
         d\<lparr>cultural_entries := map (add_frequency (set (search_rows d q f)) n) (cultural_entries d)\<rparr>"
  using rng
proof (induction n)
  case 0
  have "map (add_frequency (set (search_rows d q f)) 0) (cultural_entries d) = cultural_entries d"
    by (simp add: add_frequency_def map_idI)
  then show ?case by simp
next
  case (Suc n)
  let ?R = "set (search_rows d q f)"
  let ?g = "add_frequency ?R n"
  let ?dn = "d\<lparr>cultural_entries := map ?g (cultural_entries d)\<rparr>"
  have prev: "\<forall>e \<in> ?R. frequency e + int n \<le> frequency_max d"
    using Suc.prems by auto
  have inj: "inj_on ?g (set (cultural_entries d))"
    using wf_db_inj[OF wf] by (rule inj_on_add_frequency)
  have rows: "search_rows ?dn q f = map ?g (search_rows d q f)"
    by (rule search_rows_map[OF only_frequency_add inj])
  have wfn: "wf_db ?dn"
    using wf by (simp add: wf_db_def comp_def)
  have rngn: "\<forall>e \<in> set (search_rows ?dn q f). frequency e < frequency_max ?dn"
    using Suc.prems by (auto simp: rows add_frequency_def)
  have mem: "\<And>e. e \<in> set (cultural_entries d) \<Longrightarrow> ?g e \<in> ?g ` ?R \<longleftrightarrow> e \<in> ?R"
    using inj_on_image_mem_iff[OF inj _ search_rows_subset[of d q f]] by blast
  have step: "\<And>e. e \<in> set (cultural_entries d) \<Longrightarrow>
     (if ?g e \<in> ?g ` ?R then (?g e)\<lparr>frequency := frequency (?g e) + 1\<rparr> else ?g e) =
     add_frequency ?R (Suc n) e"
    by (simp add: mem) (simp add: add_frequency_def)
  have "cultural_entries (fst (search_entries ?dn q f)) =
        map (add_frequency ?R (Suc n)) (cultural_entries d)"
    using step by (simp add: fst_search_entries[OF wfn rngn] rows comp_def)
  then have "fst (search_entries ?dn q f) =
     d\<lparr>cultural_entries := map (add_frequency ?R (Suc n)) (cultural_entries d)\<rparr>"
    by (subst search_entries_frame) simp
  then show ?case by (simp add: Suc.IH[OF prev])
qed

lemma find_pk_map:
  assumes "inj_on pk (set es)" "e \<in> set es" "\<And>r. pk (g r) = pk r"
  shows "find (\<lambda>r. pk r = pk e) (map g es) = Some (g e)"
  using assms(1,2)
proof (induction es)
  case Nil then show ?case by simp
next
  case (Cons x xs)
  show ?case
  proof (cases "x = e")
    case True then show ?thesis by (simp add: assms(3))
  next
    case False
    then have "e \<in> set xs" using Cons.prems by simp
    moreover have "pk x \<noteq> pk e" using Cons.prems False by (auto dest: inj_onD)
    moreover have "inj_on pk (set xs)" using Cons.prems by (simp add: inj_on_def)
    ultimately show ?thesis using Cons.IH by (simp add: assms(3))
  qed
qed

lemma frequency_of_search_n:
  assumes wf: "wf_db d" and e: "e \<in> set (cultural_entries d)"
    and rng: "\<forall>e \<in> set (search_rows d q f). frequency e + int n \<le> frequency_max d"
  shows "frequency_of (search_n n d q f) (pk e) =
         Some (frequency e + (if e \<in> set (search_rows d q f) then int n else 0))"
proof -
  have "find (\<lambda>r. pk r = pk e) (map (add_frequency (set (search_rows d q f)) n) (cultural_entries d))
        = Some (add_frequency (set (search_rows d q f)) n e)"
    by (rule find_pk_map[OF wf_db_inj[OF wf] e]) simp
  then show ?thesis
    by (simp add: frequency_of_def search_n_entries[OF wf rng]) (simp add: add_frequency_def)
qed

lemma example_rows: "search_rows example_db ''ubuntu'' None = [entry_ubuntu]"
  by code_simp

lemma example_join:
  "length (filter (text_query ''ubuntu'') (left_join_examples example_db)) = 2"
  by code_simp

lemma example_wf: "wf_db example_db"
  by (simp add: wf_db_def example_db_def entry_ubuntu_def entry_indlela_def)

text \<open>
  Claim C8. For every query and every combination of filters, the entries a search
  selects, and the entries it returns, have pairwise different keys, also when several
  usage examples of one entry match the query; the keys of the stored entries are
  unique, as the table's primary key makes them.
\<close>

theorem search_results_no_duplicates:
  "wf_db d \<Longrightarrow>
     distinct (map pk (search_rows d query filters)) \<and>
     (\<forall>results. snd (search_entries d query filters) = Inr results \<longrightarrow>
        distinct (map pk results))"
  using search_rows_distinct_pk[of d query filters]
  by (auto simp: comp_def dest!: search_entries_Inr)

lemma example_search:
  "search_entries example_db ''ubuntu'' None =
     (example_db\<lparr>cultural_entries := [entry_ubuntu\<lparr>frequency := 1\<rparr>, entry_indlela]\<rparr>,
      Inr [entry_ubuntu\<lparr>frequency := 1\<rparr>])"
  by (simp add: search_entries_eq example_rows)
     (simp add: example_db_def entry_ubuntu_def entry_indlela_def)

text \<open>
  In the example store two joined rows of the entry \<open>Ubuntu\<close> match the query; the
  result holds the entry once.
\<close>

theorem search_results_no_duplicates_witness:
  "wf_db example_db \<and>
   length (filter (text_query ''ubuntu'') (left_join_examples example_db)) = 2 \<and>
   snd (search_entries example_db ''ubuntu'' None) = Inr [entry_ubuntu\<lparr>frequency := 1\<rparr>] \<and>
   distinct (map pk [entry_ubuntu\<lparr>frequency := 1\<rparr>])"
proof -
  have r: "snd (search_entries example_db ''ubuntu'' None) = Inr [entry_ubuntu\<lparr>frequency := 1\<rparr>]"
    by (simp add: example_search)
  show ?thesis
    using search_results_no_duplicates[OF example_wf, of "''ubuntu''" None] r example_wf
      example_join by blast
qed

section \<open>Properties of the import service\<close>

lemmas import_eval_defs =
  import_from_json_def import_record_def has_required_fields_def and_then_def entry_kwargs_def
  create_cultural_entry_def import_examples_def import_translations_def record_examples_def
  record_translations_def Let_def

text \<open>
  Claim C10. The acceptance check of the import looks at the presence of the two keys
  only: a record whose \<open>isiZulu_text\<close> and \<open>english_translation\<close> are empty strings is
  accepted and counted, and an entry with empty text in both fields is stored (with the
  defaults \<open>cultural\<close> for part of speech and genre), whatever the store held before.
\<close>

theorem import_accepts_empty_required_text:
  "import_from_json d
      [JObj [(''isiZulu_text'', JStr []), (''english_translation'', JStr [])]] user =
     (log_activity
        (d\<lparr>cultural_entries := cultural_entries d @
             [\<lparr>pk = next_pk (map pk (cultural_entries d)), isiZulu_text = [],
               english_translation = [], part_of_speech = ''cultural'', genre = ''cultural'',
               cultural_context = [], source = [], frequency = 0, is_active = True,
               created_at = clock d, updated_at = clock d\<rparr>],
            clock := Suc (clock d)\<rparr>)
        user ''import'' ''Imported 1 entries from JSON'' None,
      Inr 1)"
  by (simp add: import_eval_defs string_of_nat.simps digit_char_def)

text \<open>
  Claim C2, evaluated on the code. Importing the first record of the seed command, which
  carries one usage example and two additional translations, raises \<open>TypeError\<close> when
  the loop over the examples calls \<open>CulturalEntry.objects.create\<close> with the fields of
  \<open>UsageExample\<close>; the transaction is rolled back and the store is as it was: no
  entry, no usage example and no additional translation is stored.
\<close>

theorem import_seed_record_raises:
  "import_from_json d [seed_ubuntu] user = (d, Inl TypeError)"
  by (simp add: import_eval_defs seed_ubuntu_def)

section \<open>No call lowers a counter\<close>

lemma keeps_counters_refl: "wf_db d \<Longrightarrow> keeps_counters d d"
  by (auto simp: keeps_counters_def)

lemma keeps_counters_trans:
  "keeps_counters d d' \<Longrightarrow> keeps_counters d' d'' \<Longrightarrow> keeps_counters d d''"
  unfolding keeps_counters_def by (metis order_trans)

lemma next_pk_fresh: "k \<in> set ks \<Longrightarrow> k < next_pk ks"
proof -
  assume "k \<in> set ks"
  then have "k \<le> Max (set (0 # ks))" by (auto intro: Max_ge)
  then show ?thesis by (simp only: next_pk_def Max.set_eq_fold)
qed

lemma keeps_counters_append:
  assumes "wf_db d" "cultural_entries d' = cultural_entries d @ [e]"
    "pk e = next_pk (map pk (cultural_entries d))"
  shows "keeps_counters d d'"
proof -
  have "pk e \<notin> set (map pk (cultural_entries d))"
    using next_pk_fresh[of "pk e" "map pk (cultural_entries d)"] assms(3) by auto
  then show ?thesis using assms by (auto simp: keeps_counters_def wf_db_def)
qed

lemma create_cultural_entry_Inr:
  assumes "create_cultural_entry d vals = Inr (d1, e)"
  shows "cultural_entries d1 = cultural_entries d @ [e] \<and> pk e = next_pk (map pk (cultural_entries d))
    \<and> usage_examples d1 = usage_examples d \<and> additional_translations d1 = additional_translations d
    \<and> activity_logs d1 = activity_logs d \<and> collocations d1 = collocations d"
  using assms by (auto simp: create_cultural_entry_def Let_def split: option.splits)

lemma create_examples_entries [simp]:
  "cultural_entries (create_examples d k xs) = cultural_entries d"
  by (induction d k xs rule: create_examples.induct) (simp_all add: create_usage_example_def)

lemma create_translations_entries [simp]:
  "cultural_entries (fst (create_translations d k ts)) = cultural_entries d"
  by (induction d k ts rule: create_translations.induct)
     (auto simp: create_additional_translation_def split: sum.splits if_splits)

lemma perform_create_keeps:
  assumes "wf_db d" shows "keeps_counters d (fst (perform_create d v))"
proof -
  let ?vals = "\<lparr>val_isiZulu_text = Some (or_default (v_isiZulu_text v) []),
         val_english_translation = Some (or_default (v_english_translation v) []),
         val_part_of_speech = Some (or_default (v_part_of_speech v) []),
         val_genre = Some (or_default (v_genre v) []),
         val_cultural_context = Some (or_default (v_cultural_context v) []),
         val_source = Some (or_default (v_source v) []),
         val_is_active = or_default (v_is_active v) True\<rparr>"
  show ?thesis
  proof (cases "create_cultural_entry d ?vals")
    case (Inl e)
    then have "fst (perform_create d v) = d"
      by (simp add: perform_create_def serializer_create_def)
    then show ?thesis using assms by (simp add: keeps_counters_refl)
  next
    case (Inr p)
    obtain d1 e where p: "p = (d1, e)" by (cases p)
    note c = create_cultural_entry_Inr[OF Inr[unfolded p]]
    let ?d2 = "create_examples d1 (pk e) (or_default (v_examples v) [])"
    let ?r = "create_translations ?d2 (pk e) (or_default (v_additional_translations v) [])"
    have "fst (perform_create d v) = fst ?r"
      by (cases ?r) (auto simp: perform_create_def serializer_create_def Inr p Let_def split: sum.splits)
    moreover have "cultural_entries (fst ?r) = cultural_entries d @ [e]"
      using c by simp
    ultimately show ?thesis
      using keeps_counters_append[OF assms _ conjunct1[OF conjunct2[OF c]]] by simp
  qed
qed

lemma get_object_Inr:
  assumes "get_object d k = Inr inst"
  shows "inst \<in> set (cultural_entries d) \<and> pk inst = k \<and> is_active inst"
proof -
  have "find (\<lambda>e. pk e = k) (get_queryset d) = Some inst"
    using assms by (simp add: get_object_def split: option.splits)
  then have "inst \<in> set (get_queryset d) \<and> pk inst = k"
    by (auto simp: find_Some_iff)
  then show ?thesis by (auto simp: get_queryset_def order_by_created_desc_def)
qed

lemma save_entry_keeps:
  assumes wf: "wf_db d" and inst: "inst \<in> set (cultural_entries d)"
    and pk: "pk chg = pk inst" and fr: "frequency chg = frequency inst"
  shows "keeps_counters d (fst (save_entry d chg))"
proof -
  let ?saved = "chg\<lparr>updated_at := clock d\<rparr>"
  have ents: "cultural_entries (fst (save_entry d chg)) =
      map (\<lambda>row. if pk row = pk chg then ?saved else row) (cultural_entries d)"
    by (simp add: save_entry_def Let_def)
  have "pk \<circ> (\<lambda>row. if pk row = pk chg then ?saved else row) = pk" by (rule ext) simp
  then have "map pk (cultural_entries (fst (save_entry d chg))) = map pk (cultural_entries d)"
    by (simp only: ents map_map)
  then have wf': "wf_db (fst (save_entry d chg))"
    using wf by (simp only: wf_db_def)
  have "\<exists>e' \<in> set (cultural_entries (fst (save_entry d chg))). pk e' = pk e \<and> frequency e \<le> frequency e'"
    if e: "e \<in> set (cultural_entries d)" for e
  proof (cases "pk e = pk chg")
    case True
    then have "e = inst" using wf_db_inj[OF wf] e inst pk by (auto dest: inj_onD)
    moreover have "?saved \<in> set (cultural_entries (fst (save_entry d chg)))"
      using e True by (auto simp: ents intro!: image_eqI[where x = e])
    ultimately show ?thesis using True fr by (intro bexI[where x = ?saved]) simp_all
  next
    case False
    then have "e \<in> set (cultural_entries (fst (save_entry d chg)))"
      using e by (auto simp: ents intro!: image_eqI[where x = e])
    then show ?thesis by blast
  qed
  then show ?thesis using wf' by (simp add: keeps_counters_def)
qed

lemma destroy_keeps:
  assumes "wf_db d" shows "keeps_counters d (fst (destroy d k))"
proof (cases "get_object d k")
  case (Inl e)
  then show ?thesis using assms by (simp add: destroy_def keeps_counters_refl)
next
  case (Inr inst)
  have "fst (destroy d k) = fst (save_entry d (inst\<lparr>is_active := False\<rparr>))"
    by (simp add: destroy_def Inr perform_destroy_def Let_def split: prod.splits)
  then show ?thesis
    using save_entry_keeps[OF assms conjunct1[OF get_object_Inr[OF Inr]], of "inst\<lparr>is_active := False\<rparr>"]
    by simp
qed

lemma update_keeps:
  assumes "wf_db d" shows "keeps_counters d (fst (update d k v))"
proof (cases "get_object d k")
  case (Inl e)
  then show ?thesis using assms by (simp add: update_def keeps_counters_refl)
next
  case (Inr inst)
  let ?chg = "inst\<lparr>isiZulu_text := or_default (v_isiZulu_text v) (isiZulu_text inst),
             english_translation := or_default (v_english_translation v) (english_translation inst),
             part_of_speech := or_default (v_part_of_speech v) (part_of_speech inst),
             genre := or_default (v_genre v) (genre inst),
             cultural_context := or_default (v_cultural_context v) (cultural_context inst),
             source := or_default (v_source v) (source inst),
             is_active := or_default (v_is_active v) (is_active inst)\<rparr>"
  have k: "keeps_counters d (fst (save_entry d ?chg))"
    by (rule save_entry_keeps[OF assms conjunct1[OF get_object_Inr[OF Inr]]]) simp_all
  have "cultural_entries (fst (serializer_update d inst v)) =
        cultural_entries (fst (save_entry d ?chg))"
  proof -
    obtain d1 saved where s: "save_entry d ?chg = (d1, saved)"
      by (cases "save_entry d ?chg")
    define d2 where "d2 = (case v_examples v of
        None \<Rightarrow> d1
      | Some examples_data \<Rightarrow>
          create_examples
            (d1\<lparr>usage_examples := filter (\<lambda>x. ex_entry x \<noteq> pk saved) (usage_examples d1)\<rparr>)
            (pk saved) examples_data)"
    have e2: "cultural_entries d2 = cultural_entries d1"
      by (cases "v_examples v") (simp_all add: d2_def)
    have "cultural_entries (fst (serializer_update d inst v)) = cultural_entries d2"
    proof (cases "v_additional_translations v")
      case None
      then show ?thesis
        by (simp add: serializer_update_def Let_def s d2_def)
    next
      case (Some ts)
      let ?r = "create_translations
                  (d2\<lparr>additional_translations :=
                       filter (\<lambda>t. tr_entry t \<noteq> pk saved) (additional_translations d2)\<rparr>)
                  (pk saved) ts"
      have "fst (serializer_update d inst v) = fst ?r"
        by (cases ?r) (auto simp: serializer_update_def Let_def s d2_def Some split: sum.splits)
      then show ?thesis by simp
    qed
    then show ?thesis by (simp add: e2 s)
  qed
  moreover have "fst (update d k v) = fst (serializer_update d inst v)"
    by (simp add: update_def Inr perform_update_def split: prod.splits sum.splits)
  ultimately have "cultural_entries (fst (update d k v)) = cultural_entries (fst (save_entry d ?chg))"
    by simp
  then show ?thesis using k by (simp add: keeps_counters_def wf_db_def)
qed

lemma log_activity_entries [simp]:
  "cultural_entries (log_activity d u a ds ip) = cultural_entries d"
  by (simp add: log_activity_def)

lemma search_entries_keeps:
  assumes wf: "wf_db d" shows "keeps_counters d (fst (search_entries d q f))"
proof (cases "\<forall>e \<in> set (search_rows d q f). frequency e < frequency_max d")
  case False
  then have "fst (search_entries d q f) = d"
    by (auto simp: search_entries_eq)
  then show ?thesis using wf by (simp add: keeps_counters_refl)
next
  case True
  let ?g = "\<lambda>row. if row \<in> set (search_rows d q f) then row\<lparr>frequency := frequency row + 1\<rparr> else row"
  have ents: "cultural_entries (fst (search_entries d q f)) = map ?g (cultural_entries d)"
    by (rule fst_search_entries[OF wf True])
  have "pk \<circ> ?g = pk" by (rule ext) simp
  then have "map pk (map ?g (cultural_entries d)) = map pk (cultural_entries d)"
    by (simp only: map_map)
  then have "wf_db (fst (search_entries d q f))"
    using wf by (simp only: wf_db_def ents)
  moreover have "\<exists>e' \<in> set (cultural_entries (fst (search_entries d q f))). pk e' = pk e \<and> frequency e \<le> frequency e'"
    if "e \<in> set (cultural_entries d)" for e
    using that by (intro bexI[where x = "?g e"]) (simp_all add: ents)
  ultimately show ?thesis by (simp add: keeps_counters_def)
qed

lemma search_view_entries:
  "cultural_entries (fst (search paginate d req params)) =
   cultural_entries (fst (search_entries d (or_default (param_q params) [])
      (Some \<lparr>f_part_of_speech = param_part_of_speech params, f_genre = param_genre params,
             f_language = param_language params,
             f_query = Some (or_default (param_q params) [])\<rparr>)))"
  by (simp add: search_def Let_def split: prod.splits sum.splits option.splits)

lemma keeps_counters_cong:
  "keeps_counters d d' \<Longrightarrow> cultural_entries d'' = cultural_entries d' \<Longrightarrow> keeps_counters d d''"
  by (simp add: keeps_counters_def wf_db_def)

lemma search_view_keeps:
  "wf_db d \<Longrightarrow> keeps_counters d (fst (search paginate d req params))"
  by (rule keeps_counters_cong[OF search_entries_keeps search_view_entries])

lemma import_examples_Inr: "import_examples d e xs = Inr d' \<Longrightarrow> d' = d"
  by (auto simp: import_examples_def and_then_def split: list.splits sum.splits)

lemma import_translations_Inr: "import_translations d e xs = Inr d' \<Longrightarrow> d' = d"
  by (auto simp: import_translations_def split: list.splits prod.splits)

lemma and_then_Inr: "and_then m f = Inr y \<longleftrightarrow> (\<exists>x. m = Inr x \<and> f x = Inr y)"
  by (cases m) (simp_all add: and_then_def)

lemma import_record_Inr:
  assumes "import_record d r = Inr (d', b)"
  shows "(\<not> b \<and> d' = d \<and> has_required_fields r = Inr False) \<or>
         (b \<and> has_required_fields r = Inr True \<and>
          (\<exists>vals e. entry_kwargs r = Inr vals \<and> create_cultural_entry d vals = Inr (d', e)))"
  using assms unfolding import_record_def
  by (auto simp: and_then_Inr split: if_splits dest!: import_examples_Inr import_translations_Inr)

lemma import_record_keeps:
  assumes "wf_db d" "import_record d r = Inr (d', b)"
  shows "keeps_counters d d'"
  using import_record_Inr[OF assms(2)]
proof (elim disjE conjE exE)
  assume "d' = d" then show ?thesis using assms(1) by (simp add: keeps_counters_refl)
next
  fix vals e assume "create_cultural_entry d vals = Inr (d', e)"
  from create_cultural_entry_Inr[OF this] show ?thesis
    by (intro keeps_counters_append[OF assms(1)]) auto
qed

lemma import_loop_keeps:
  "wf_db d \<Longrightarrow> import_loop d n rs = Inr (d', m) \<Longrightarrow> keeps_counters d d'"
proof (induction rs arbitrary: d n)
  case Nil then show ?case by (simp add: keeps_counters_refl)
next
  case (Cons r rs)
  from Cons.prems(2) obtain d1 b where r: "import_record d r = Inr (d1, b)"
    and l: "import_loop d1 (if b then n + 1 else n) rs = Inr (d', m)"
    by (auto simp: and_then_Inr)
  have k1: "keeps_counters d d1" by (rule import_record_keeps[OF Cons.prems(1) r])
  then have "wf_db d1" by (simp add: keeps_counters_def)
  from Cons.IH[OF this l] k1 show ?case by (blast intro: keeps_counters_trans)
qed

lemma import_from_json_keeps:
  assumes "wf_db d" shows "keeps_counters d (fst (import_from_json d rs u))"
proof (cases "import_loop d 0 rs")
  case (Inl e) then show ?thesis using assms by (simp add: import_from_json_def keeps_counters_refl)
next
  case (Inr p)
  obtain d' m where p: "p = (d', m)" by (cases p)
  have "keeps_counters d d'" by (rule import_loop_keeps[OF assms Inr[unfolded p]])
  then show ?thesis
    by (rule keeps_counters_cong) (simp add: import_from_json_def Inr p)
qed

lemma import_data_keeps:
  assumes "wf_db d" shows "keeps_counters d (fst (import_data d req body))"
proof (cases body)
  case (JArr rs)
  have "fst (import_data d req body) = fst (import_from_json d rs (req_user req))"
    by (simp add: import_data_def JArr split: prod.splits sum.splits)
  then show ?thesis using import_from_json_keeps[OF assms] by simp
qed (simp_all add: import_data_def keeps_counters_refl[OF assms])

lemma export_data_keeps:
  "wf_db d \<Longrightarrow> keeps_counters d (fst (export_data d req))"
  by (rule keeps_counters_cong[OF keeps_counters_refl]) (simp_all add: export_data_def Let_def)

lemma handle_keeps:
  assumes "wf_db d" shows "keeps_counters d (handle paginate d call)"
  by (cases call)
     (simp_all add: handle_def keeps_counters_refl[OF assms] perform_create_keeps[OF assms]
        update_keeps[OF assms] destroy_keeps[OF assms] search_view_keeps[OF assms]
        import_data_keeps[OF assms] export_data_keeps[OF assms])

lemma run_keeps:
  "wf_db d \<Longrightarrow> keeps_counters d (run paginate d calls)"
proof (induction calls arbitrary: d)
  case Nil then show ?case by (simp add: run_def keeps_counters_refl)
next
  case (Cons c cs)
  have k: "keeps_counters d (handle paginate d c)" by (rule handle_keeps[OF Cons.prems])
  then have "wf_db (handle paginate d c)" by (simp add: keeps_counters_def)
  from Cons.IH[OF this] k show ?case
    by (simp add: run_def) (blast intro: keeps_counters_trans)
qed

lemma frequency_of_Some:
  "frequency_of d k = Some a \<longleftrightarrow> (\<exists>e. find (\<lambda>e. pk e = k) (cultural_entries d) = Some e \<and> frequency e = a)"
  by (auto simp: frequency_of_def)

lemma frequency_of_mem:
  assumes "wf_db d" "e \<in> set (cultural_entries d)"
  shows "frequency_of d (pk e) = Some (frequency e)"
  using find_pk_map[OF wf_db_inj[OF assms(1)] assms(2), of id] by (simp add: frequency_of_def)

lemma keeps_counters_frequency_of:
  assumes "keeps_counters d d'" "frequency_of d k = Some a"
  shows "\<exists>b. frequency_of d' k = Some b \<and> a \<le> b"
proof -
  from assms(2) obtain e where "e \<in> set (cultural_entries d)" "pk e = k" "frequency e = a"
    by (auto simp: frequency_of_Some find_Some_iff in_set_conv_nth)
  with assms(1) obtain e' where "e' \<in> set (cultural_entries d')" "pk e' = k" "a \<le> frequency e'"
    by (auto simp: keeps_counters_def)
  moreover have "wf_db d'" using assms(1) by (simp add: keeps_counters_def)
  ultimately show ?thesis using frequency_of_mem[of d' e'] by auto
qed

lemma full_counter_rows:
  "search_rows (full_counter_db 2147483647) ''ubuntu'' None =
     [entry_ubuntu\<lparr>frequency := 2147483647\<rparr>]"
  "search_rows (full_counter_db 9223372036854775807) ''ubuntu'' None =
     [entry_ubuntu\<lparr>frequency := 9223372036854775807\<rparr>]"
  by code_simp+

lemma full_counter_search:
  "search_entries (full_counter_db 2147483647) ''ubuntu'' None =
     (full_counter_db 2147483647, Inl OutOfRange)"
  "search_entries (full_counter_db 9223372036854775807) ''ubuntu'' None =
     (full_counter_db 9223372036854775807, Inl OutOfRange)"
  by (simp_all add: search_entries_eq full_counter_rows)
     (simp_all add: full_counter_db_def)

text \<open>
  Claim C5, as the code has it. A search whose matched counters are all below the
  largest value of the column returns its result rows with the counter raised by one
  and writes these counters back in one \<open>bulk_update\<close>; a search that matches an entry
  whose counter has reached that value raises, returns no result and changes nothing.
  After the same search has run \<open>n\<close> times, with the matched counters staying within
  the column's range, the stored counter of every entry the search matches is \<open>n\<close>
  higher and the counter of every other entry is unchanged (\<open>n = 1\<close>: each returned
  entry is raised by exactly one). And after any sequence of calls of the API, the
  counter stored for a key is at least what it was.
\<close>

theorem search_increments_frequency:
  assumes "wf_db d"
  shows "((\<forall>e \<in> set (search_rows d query filters). frequency e < frequency_max d) \<longrightarrow>
            snd (search_entries d query filters) =
              Inr (map (\<lambda>e. e\<lparr>frequency := frequency e + 1\<rparr>) (search_rows d query filters))) \<and>
         ((\<exists>e \<in> set (search_rows d query filters). frequency_max d \<le> frequency e) \<longrightarrow>
            search_entries d query filters = (d, Inl OutOfRange)) \<and>
         ((\<forall>e \<in> set (search_rows d query filters). frequency e + int n \<le> frequency_max d) \<longrightarrow>
            (\<forall>e \<in> set (cultural_entries d).
               frequency_of (search_n n d query filters) (pk e) =
                 Some (frequency e +
                       (if e \<in> set (search_rows d query filters) then int n else 0)))) \<and>
         (\<forall>k a. frequency_of d k = Some a \<longrightarrow>
            (\<exists>b. frequency_of (run paginate d calls) k = Some b \<and> a \<le> b))"
proof (intro conjI impI)
  assume "\<forall>e \<in> set (search_rows d query filters). frequency e < frequency_max d"
  then have "\<not> (\<exists>e \<in> set (search_rows d query filters). frequency_max d \<le> frequency e)"
    by auto
  then show "snd (search_entries d query filters) =
      Inr (map (\<lambda>e. e\<lparr>frequency := frequency e + 1\<rparr>) (search_rows d query filters))"
    by (simp add: search_entries_eq)
next
  assume "\<exists>e \<in> set (search_rows d query filters). frequency_max d \<le> frequency e"
  then show "search_entries d query filters = (d, Inl OutOfRange)"
    by (simp add: search_entries_eq)
next
  assume "\<forall>e \<in> set (search_rows d query filters). frequency e + int n \<le> frequency_max d"
  then show "\<forall>e \<in> set (cultural_entries d).
      frequency_of (search_n n d query filters) (pk e) =
        Some (frequency e + (if e \<in> set (search_rows d query filters) then int n else 0))"
    using frequency_of_search_n[OF assms] by blast
next
  show "\<forall>k a. frequency_of d k = Some a \<longrightarrow>
      (\<exists>b. frequency_of (run paginate d calls) k = Some b \<and> a \<le> b)"
    using keeps_counters_frequency_of[OF run_keeps[OF assms]] by blast
qed

text \<open>Searching \<open>ubuntu\<close> twice in the example store raises the counter of \<open>Ubuntu\<close> by two.\<close>

theorem search_increments_frequency_witness:
  "wf_db example_db \<and>
   frequency_of example_db 1 = Some 0 \<and>
   snd (search_entries example_db ''ubuntu'' None) = Inr [entry_ubuntu\<lparr>frequency := 1\<rparr>] \<and>
   frequency_of (search_n 1 example_db ''ubuntu'' None) 1 = Some 1 \<and>
   frequency_of (search_n 2 example_db ''ubuntu'' None) 1 = Some 2 \<and>
   frequency_of (search_n 2 example_db ''ubuntu'' None) 2 = Some 0 \<and>
   (\<exists>b. frequency_of (run (\<lambda>rs. Inr None) example_db
            [Search_call anonymous \<lparr>param_q = Some ''ubuntu'', param_part_of_speech = None,
               param_genre = None, param_language = None\<rparr>, Destroy_call 1]) 1 = Some b \<and> 0 \<le> b)"
proof -
  note t = search_increments_frequency[OF example_wf, of "''ubuntu''" None]
  have e1: "entry_ubuntu \<in> set (cultural_entries example_db)"
    and e2: "entry_indlela \<in> set (cultural_entries example_db)"
    by (simp_all add: example_db_def)
  have f0: "frequency_of example_db 1 = Some 0"
    by (simp add: frequency_of_def example_db_def entry_ubuntu_def)
  have pk1: "pk entry_ubuntu = 1" "frequency entry_ubuntu = 0"
    and pk2: "pk entry_indlela = 2" "frequency entry_indlela = 0"
    and ne: "entry_indlela \<noteq> entry_ubuntu"
    and mx: "frequency_max example_db = 2147483647"
    by (simp_all add: entry_ubuntu_def entry_indlela_def example_db_def)
  have r1: "\<forall>e \<in> set (search_rows example_db ''ubuntu'' None). frequency e < frequency_max example_db"
    by (simp add: example_rows pk1 mx)
  have rn: "\<forall>e \<in> set (search_rows example_db ''ubuntu'' None).
      frequency e + int n \<le> frequency_max example_db" if "n \<le> 2" for n
    using that by (simp add: example_rows pk1 mx)
  have s: "snd (search_entries example_db ''ubuntu'' None) = Inr [entry_ubuntu\<lparr>frequency := 1\<rparr>]"
    using t r1 by (simp add: example_rows pk1)
  have A: "frequency_of (search_n n example_db ''ubuntu'' None) (pk entry_ubuntu) =
      Some (frequency entry_ubuntu + int n)" if "n \<le> 2" for n
    using t[of n] rn[OF that] e1 by (simp add: example_rows)
  have B: "frequency_of (search_n n example_db ''ubuntu'' None) (pk entry_indlela) =
      Some (frequency entry_indlela)" if "n \<le> 2" for n
    using t[of n] rn[OF that] e2 by (simp add: example_rows ne)
  have a: "frequency_of (search_n 1 example_db ''ubuntu'' None) 1 = Some 1"
    using A[of 1] by (simp only: pk1) simp
  have b: "frequency_of (search_n 2 example_db ''ubuntu'' None) 1 = Some 2"
    using A[of 2] by (simp only: pk1) simp
  have c: "frequency_of (search_n 2 example_db ''ubuntu'' None) 2 = Some 0"
    using B[of 2] by (simp only: pk2)
  show ?thesis using t f0 s a b c example_wf by blast
qed

text \<open>
  When the counter of \<open>Ubuntu\<close> holds the largest value of the column (the 32-bit
  bound, or the 64-bit one), a search for it raises and the counter is not raised by
  one.
\<close>

theorem search_increments_frequency_counterexample:
  "search_entries (full_counter_db 2147483647) ''ubuntu'' None =
     (full_counter_db 2147483647, Inl OutOfRange) \<and>
   frequency_of (search_n 1 (full_counter_db 2147483647) ''ubuntu'' None) 1 = Some 2147483647 \<and>
   search_entries (full_counter_db 9223372036854775807) ''ubuntu'' None =
     (full_counter_db 9223372036854775807, Inl OutOfRange) \<and>
   frequency_of (search_n 1 (full_counter_db 9223372036854775807) ''ubuntu'' None) 1 =
     Some 9223372036854775807"
  by (simp add: full_counter_search)
     (simp add: frequency_of_def full_counter_db_def entry_ubuntu_def)

section \<open>Properties of the views\<close>

text \<open>
  Claim C3, evaluated on the code. Whenever the paginator returns a page, the \<open>search\<close>
  action returns the paginated response before it reaches the logging call: the activity
  log is exactly what it was before the request.
\<close>

theorem search_paginated_writes_no_log:
  "activity_logs (fst (search (\<lambda>results. Inr (Some (page results))) d req params)) =
     activity_logs d"
proof -
  obtain d1 found where s: "search_entries d (or_default (param_q params) [])
      (Some \<lparr>f_part_of_speech = param_part_of_speech params, f_genre = param_genre params,
             f_language = param_language params,
             f_query = Some (or_default (param_q params) [])\<rparr>) = (d1, found)"
    by (cases "search_entries d (or_default (param_q params) [])
      (Some \<lparr>f_part_of_speech = param_part_of_speech params, f_genre = param_genre params,
             f_language = param_language params,
             f_query = Some (or_default (param_q params) [])\<rparr>)")
  have "activity_logs d1 = activity_logs d"
    using search_entries_logs[of d] s by (metis fst_conv)
  then show ?thesis
    by (cases found) (simp_all add: search_def Let_def s)
qed

lemma apply_filters_base: "apply_filters base f r \<Longrightarrow> base r"
  by (simp add: apply_filters_def)

lemma search_rows_active: "e \<in> set (search_rows d q f) \<Longrightarrow> is_active e"
  by (cases f)
     (auto simp: search_rows_def order_by_created_desc_def Let_def
           split: if_splits dest: apply_filters_base)

lemma get_queryset_active: "e \<in> set (get_queryset d) \<Longrightarrow> is_active e \<and> e \<in> set (cultural_entries d)"
  by (simp add: get_queryset_def order_by_created_desc_def)

lemma list_entries_subset: "set (list_entries d flt) \<subseteq> set (get_queryset d)"
  by (auto simp: list_entries_def filter_queryset_def)

lemma destroy_entries:
  assumes "get_object d k = Inr inst"
  shows "destroy d k =
    (d\<lparr>cultural_entries :=
         map (\<lambda>row. if pk row = k then inst\<lparr>is_active := False, updated_at := clock d\<rparr> else row)
             (cultural_entries d),
       clock := Suc (clock d)\<rparr>, Inl TypeError)"
  using get_object_Inr[OF assms]
  by (simp add: destroy_def assms perform_destroy_def save_entry_def Let_def)

lemma destroyed_inactive:
  assumes "get_object d k = Inr inst" and "e \<in> set (cultural_entries (fst (destroy d k)))" and "pk e = k"
  shows "\<not> is_active e"
  using assms(2,3) by (auto simp: destroy_entries[OF assms(1)] split: if_splits)

text \<open>
  Claim C6. When the entry with key \<open>k\<close> is deleted through the API (it is in the
  queryset of the view set, so \<open>get_object\<close> finds it), the row stays in the table with
  \<open>is_active = False\<close> and its other columns as they were (\<open>updated_at\<close> apart), no
  key leaves the table, and the key is absent from what list, retrieve and search
  select and return afterwards, whatever the list filter, the query and the search
  filters. The
  request itself ends with \<open>TypeError\<close>, raised by the logging call after the row is
  saved.
\<close>

theorem destroy_is_soft_delete:
  assumes "get_object d k = Inr inst"
  shows "snd (destroy d k) = Inl TypeError \<and>
         inst\<lparr>is_active := False, updated_at := clock d\<rparr> \<in> set (cultural_entries (fst (destroy d k))) \<and>
         map pk (cultural_entries (fst (destroy d k))) = map pk (cultural_entries d) \<and>
         k \<notin> pk ` set (list_entries (fst (destroy d k)) flt) \<and>
         retrieve (fst (destroy d k)) k = Inl Http404 \<and>
         k \<notin> pk ` set (search_rows (fst (destroy d k)) query filters) \<and>
         (\<forall>results. snd (search_entries (fst (destroy d k)) query filters) = Inr results \<longrightarrow>
            k \<notin> pk ` set results)"
proof -
  let ?d = "fst (destroy d k)"
  note g = get_object_Inr[OF assms]
  have inact: "\<And>e. e \<in> set (cultural_entries ?d) \<Longrightarrow> pk e = k \<Longrightarrow> \<not> is_active e"
    by (rule destroyed_inactive[OF assms])
  have 1: "inst\<lparr>is_active := False, updated_at := clock d\<rparr> \<in> set (cultural_entries ?d)"
    using g by (auto simp: destroy_entries[OF assms] intro!: image_eqI[where x = inst])
  have "pk \<circ> (\<lambda>row. if pk row = k then inst\<lparr>is_active := False, updated_at := clock d\<rparr> else row) = pk"
    using g by (auto simp: fun_eq_iff)
  then have 2: "map pk (cultural_entries ?d) = map pk (cultural_entries d)"
    by (simp only: destroy_entries[OF assms] fst_conv map_map) simp
  have q: "k \<notin> pk ` set (get_queryset ?d)"
    using inact get_queryset_active by blast
  then have 3: "k \<notin> pk ` set (list_entries ?d flt)"
    using list_entries_subset[of ?d flt] by blast
  have "find (\<lambda>e. pk e = k) (get_queryset ?d) = None"
    using q by (auto simp: find_None_iff)
  then have 4: "retrieve ?d k = Inl Http404"
    by (simp add: retrieve_def get_object_def and_then_def)
  have 6: "k \<notin> pk ` set (search_rows ?d query filters)"
    using inact search_rows_active search_rows_subset by blast
  have 5: "\<forall>results. snd (search_entries ?d query filters) = Inr results \<longrightarrow>
      k \<notin> pk ` set results"
  proof (intro allI impI notI)
    fix results
    assume "snd (search_entries ?d query filters) = Inr results" "k \<in> pk ` set results"
    then obtain e where "e \<in> set (search_rows ?d query filters)" "pk e = k"
      by (auto dest!: search_entries_Inr)
    then show False using inact search_rows_active search_rows_subset by blast
  qed
  have 0: "snd (destroy d k) = Inl TypeError"
    by (simp add: destroy_entries[OF assms])
  show ?thesis using 0 1 2 3 4 5 6 by blast
qed

lemma example_get_object: "get_object example_db 1 = Inr entry_ubuntu"
  by (simp add: get_object_def get_queryset_def order_by_created_desc_def example_db_def
      entry_ubuntu_def entry_indlela_def)

lemma example_destroyed_rows:
  "search_rows (fst (destroy example_db 1)) ''ubuntu'' None = []"
  by code_simp

theorem destroy_is_soft_delete_witness:
  "get_object example_db 1 = Inr entry_ubuntu \<and>
   entry_ubuntu\<lparr>is_active := False, updated_at := 2\<rparr> \<in> set (cultural_entries (fst (destroy example_db 1))) \<and>
   map pk (cultural_entries (fst (destroy example_db 1))) = [1, 2] \<and>
   1 \<notin> pk ` set (list_entries (fst (destroy example_db 1))
          \<lparr>flt_isiZulu_text = None, flt_english_translation = None, flt_part_of_speech = None,
           flt_genre = None, flt_frequency = None, flt_min_frequency = None, flt_max_frequency = None\<rparr>) \<and>
   retrieve (fst (destroy example_db 1)) 1 = Inl Http404 \<and>
   snd (search_entries (fst (destroy example_db 1)) ''ubuntu'' None) = Inr []"
proof -
  have c: "clock example_db = 2" and p: "map pk (cultural_entries example_db) = [1, 2]"
    by (simp_all add: example_db_def entry_ubuntu_def entry_indlela_def)
  have s: "snd (search_entries (fst (destroy example_db 1)) ''ubuntu'' None) = Inr []"
    by (simp only: search_entries_eq example_destroyed_rows) simp
  show ?thesis
    using destroy_is_soft_delete[OF example_get_object] example_get_object s by (simp add: c p)
qed

section \<open>Import and export\<close>

lemma import_examples_Inr_iff: "import_examples d e xs = Inr d' \<longleftrightarrow> xs = [] \<and> d' = d"
  by (cases xs) (auto simp: import_examples_def and_then_Inr)

lemma import_translations_Inr_iff: "import_translations d e xs = Inr d' \<longleftrightarrow> xs = [] \<and> d' = d"
  by (cases xs) (auto simp: import_translations_def split: prod.splits)

lemma create_cultural_entry_values:
  assumes "create_cultural_entry d vals = Inr (d1, e)"
  shows "vals = entry_values_of e \<and> frequency e = 0 \<and>
         d1 = d\<lparr>cultural_entries := cultural_entries d @ [e], clock := Suc (clock d)\<rparr>"
  using assms
  by (cases vals) (auto simp: create_cultural_entry_def entry_values_of_def Let_def split: option.splits)

lemma import_record_accepted:
  assumes "import_record d r = Inr (d', True)"
  shows "accepted r \<and> record_examples r = Inr [] \<and> record_translations r = Inr [] \<and>
         (\<exists>e. entry_kwargs r = Inr (entry_values_of e) \<and> frequency e = 0 \<and>
              d' = d\<lparr>cultural_entries := cultural_entries d @ [e], clock := Suc (clock d)\<rparr>)"
  using assms unfolding import_record_def accepted_def
  by (auto simp: and_then_Inr import_examples_Inr_iff import_translations_Inr_iff
           split: if_splits dest!: create_cultural_entry_values)

lemma import_record_skipped:
  assumes "import_record d r = Inr (d', False)"
  shows "\<not> accepted r \<and> d' = d"
  using assms unfolding import_record_def accepted_def
  by (auto simp: and_then_Inr split: if_splits)

lemma import_record_skip: "has_required_fields r = Inr False \<Longrightarrow> import_record d r = Inr (d, False)"
  by (simp add: import_record_def and_then_def)

lemma import_loop_append:
  "import_loop d n (xs @ ys) = and_then (import_loop d n xs) (\<lambda>(d', m). import_loop d' m ys)"
proof (induction xs arbitrary: d n)
  case Nil show ?case by (simp add: and_then_def)
next
  case (Cons x xs)
  show ?case
  proof (cases "import_record d x")
    case (Inl e) then show ?thesis by (simp add: and_then_def)
  next
    case (Inr p)
    obtain d1 b where p: "p = (d1, b)" by (cases p)
    show ?thesis using Cons.IH[of d1] by (simp add: Inr p and_then_def)
  qed
qed

lemma import_loop_skip:
  assumes "has_required_fields r = Inr False"
  shows "import_loop d n (xs @ r # ys) = import_loop d n (xs @ ys)"
  by (simp add: import_loop_append[of d n xs] import_record_skip[OF assms] and_then_def)

lemma import_loop_Inr:
  "import_loop d n rs = Inr (d', m) \<Longrightarrow>
     m = n + length (filter accepted rs) \<and>
     (\<exists>new. d' = d\<lparr>cultural_entries := cultural_entries d @ new, clock := clock d + length new\<rparr> \<and>
            list_all2 (\<lambda>e r. entry_kwargs r = Inr (entry_values_of e) \<and> frequency e = 0) new (filter accepted rs)) \<and>
     (\<forall>r \<in> set (filter accepted rs). record_examples r = Inr [] \<and> record_translations r = Inr [])"
proof (induction rs arbitrary: d n)
  case Nil
  then show ?case by (auto intro!: exI[where x = "[]"])
next
  case (Cons r rs)
  from Cons.prems obtain d1 b where r: "import_record d r = Inr (d1, b)"
    and l: "import_loop d1 (if b then n + 1 else n) rs = Inr (d', m)"
    by (auto simp: and_then_Inr)
  note IH = Cons.IH[OF l]
  from IH obtain new where new: "d' = d1\<lparr>cultural_entries := cultural_entries d1 @ new, clock := clock d1 + length new\<rparr>"
    "list_all2 (\<lambda>e r. entry_kwargs r = Inr (entry_values_of e) \<and> frequency e = 0) new (filter accepted rs)"
    by blast
  show ?case
  proof (cases b)
    case True
    from r True have "import_record d r = Inr (d1, True)" by simp
    from import_record_accepted[OF this] obtain e where
      acc: "accepted r" "record_examples r = Inr []" "record_translations r = Inr []"
      and e: "entry_kwargs r = Inr (entry_values_of e)" "frequency e = 0"
        "d1 = d\<lparr>cultural_entries := cultural_entries d @ [e], clock := Suc (clock d)\<rparr>"
      by blast
    have "d' = d\<lparr>cultural_entries := cultural_entries d @ (e # new), clock := clock d + length (e # new)\<rparr>"
      by (simp add: new(1) e(3))
    moreover have "list_all2 (\<lambda>e r. entry_kwargs r = Inr (entry_values_of e) \<and> frequency e = 0) (e # new) (filter accepted (r # rs))"
      using new(2) e acc by simp
    ultimately show ?thesis using IH acc True by (intro conjI exI[where x = "e # new"]) auto
  next
    case False
    from r False have "import_record d r = Inr (d1, False)" by simp
    from import_record_skipped[OF this] have "\<not> accepted r" "d1 = d" by auto
    then show ?thesis using IH False by auto
  qed
qed


lemma import_from_json_Inr:
  assumes "snd (import_from_json d rs u) = Inr n"
  shows "\<exists>d'. import_loop d 0 rs = Inr (d', n) \<and>
     fst (import_from_json d rs u) =
       log_activity d' u ''import'' (''Imported '' @ string_of_nat n @ '' entries from JSON'') None"
  using assms by (cases "import_loop d 0 rs") (auto simp: import_from_json_def)


lemmas record_defs = record_sawubona_def record_no_translation_def

lemma import_one_example:
  "import_from_json empty_db [record_sawubona] None =
    (\<lparr>cultural_entries =
        [\<lparr>pk = 1, isiZulu_text = ''Sawubona'', english_translation = ''Hello'',
          part_of_speech = ''cultural'', genre = ''cultural'', cultural_context = [],
          source = [], frequency = 0, is_active = True, created_at = 0, updated_at = 0\<rparr>],
      usage_examples = [], additional_translations = [], collocations = [],
      activity_logs = [\<lparr>log_pk = 1, log_user = None, action = ''import'',
         description = ''Imported 1 entries from JSON'', ip_address = None\<rparr>],
      clock = 1, frequency_max = 2147483647\<rparr>, Inr 1)"
  by (simp add: import_eval_defs record_defs empty_db_def next_pk_def log_activity_def
      string_of_nat.simps digit_char_def)


lemma missing_key_not_accepted:
  assumes "''isiZulu_text'' \<notin> set (map fst kvs) \<or> ''english_translation'' \<notin> set (map fst kvs)"
  shows "has_required_fields (JObj kvs) = Inr False"
  using assms by (auto simp: has_required_fields_def and_then_def)

text \<open>
  Claim C7. A record (a JSON object) that lacks \<open>isiZulu_text\<close> or
  \<open>english_translation\<close> is skipped without any effect: the import of a batch that
  contains it, anywhere, is the import of the batch without it, in outcome, count and
  store. When the import returns, the count is the number of records of the batch that
  have both keys, and the entry table has grown by exactly that many rows.
\<close>

theorem import_skips_incomplete_records:
  assumes "''isiZulu_text'' \<notin> set (map fst kvs) \<or> ''english_translation'' \<notin> set (map fst kvs)"
  shows "import_from_json d (xs @ JObj kvs # ys) u = import_from_json d (xs @ ys) u \<and>
         (\<forall>n. snd (import_from_json d (xs @ JObj kvs # ys) u) = Inr n \<longrightarrow>
            n = length (filter accepted (xs @ ys)) \<and>
            length (cultural_entries (fst (import_from_json d (xs @ JObj kvs # ys) u))) =
              length (cultural_entries d) + n)"
proof -
  have eq: "import_from_json d (xs @ JObj kvs # ys) u = import_from_json d (xs @ ys) u"
    by (simp add: import_from_json_def import_loop_skip[OF missing_key_not_accepted[OF assms]])
  have "n = length (filter accepted (xs @ ys)) \<and>
        length (cultural_entries (fst (import_from_json d (xs @ ys) u))) = length (cultural_entries d) + n"
    if n: "snd (import_from_json d (xs @ ys) u) = Inr n" for n
  proof -
    from import_from_json_Inr[OF n] obtain d' where
      l: "import_loop d 0 (xs @ ys) = Inr (d', n)" and
      f: "fst (import_from_json d (xs @ ys) u) =
         log_activity d' u ''import'' (''Imported '' @ string_of_nat n @ '' entries from JSON'') None"
      by blast
    from import_loop_Inr[OF l] obtain new where
      "n = length (filter accepted (xs @ ys))"
      "d' = d\<lparr>cultural_entries := cultural_entries d @ new, clock := clock d + length new\<rparr>"
      "list_all2 (\<lambda>e r. entry_kwargs r = Inr (entry_values_of e) \<and> frequency e = 0) new (filter accepted (xs @ ys))"
      by auto
    then show ?thesis by (auto simp: f log_activity_def dest: list_all2_lengthD)
  qed
  then show ?thesis by (simp add: eq)
qed

text \<open>
  One complete record and one without \<open>english_translation\<close>: the count is one and
  one entry is stored.
\<close>

theorem import_skips_incomplete_records_witness:
  "snd (import_from_json empty_db [record_sawubona, record_no_translation] None) = Inr 1 \<and>
   length (cultural_entries (fst (import_from_json empty_db [record_sawubona, record_no_translation] None))) = 1"
proof -
  have h: "''isiZulu_text'' \<notin> set (map fst [(''isiZulu_text'', JStr ''Yebo'')]) \<or>
    ''english_translation'' \<notin> set (map fst [(''isiZulu_text'', JStr ''Yebo'')])"
    by simp
  have "import_from_json empty_db [record_sawubona, record_no_translation] None =
        import_from_json empty_db [record_sawubona] None"
    using import_skips_incomplete_records[OF h, of empty_db "[record_sawubona]" "[]" None]
    by (simp add: record_no_translation_def)
  then show ?thesis by (simp add: import_one_example)
qed

lemma serialized_required: "has_required_fields (cultural_entry_serializer d e) = Inr True"
  by (simp add: has_required_fields_def and_then_def cultural_entry_serializer_def)

lemma serialized_kwargs:
  "entry_kwargs (cultural_entry_serializer d e) = Inr ((entry_values_of e)\<lparr>val_is_active := True\<rparr>)"
  by (simp add: entry_kwargs_def and_then_def cultural_entry_serializer_def entry_values_of_def)

lemma serialized_examples:
  "record_examples (cultural_entry_serializer d e) = Inr (map usage_example_serializer (examples_of d e))"
  by (simp add: record_examples_def and_then_def cultural_entry_serializer_def)

lemma serialized_translations:
  "record_translations (cultural_entry_serializer d e) = Inl AttributeError"
  by (simp add: record_translations_def and_then_def cultural_entry_serializer_def)

lemma import_examples_serialized:
  "import_examples d1 e1 (map usage_example_serializer xs) = (if xs = [] then Inr d1 else Inl TypeError)"
  by (cases xs) (simp_all add: import_examples_def and_then_def usage_example_serializer_def)

lemma import_record_serialized:
  "import_record d0 (cultural_entry_serializer d e) =
     (if examples_of d e = [] then Inl AttributeError else Inl TypeError)"
  by (simp add: import_record_def serialized_required serialized_kwargs serialized_examples
      serialized_translations import_examples_serialized and_then_def create_cultural_entry_def
      entry_values_of_def Let_def)

text \<open>
  Claim C1, as the code has it. The export renders \<open>examples\<close> and
  \<open>additional_translations\<close> as lists of objects, while the import reads
  \<open>additional_translations\<close> as an object from language to text (and examples under
  the keys \<open>isizulu\<close> and \<open>english\<close>). So the export of a store without active
  entries is the empty list, whose import stores nothing and returns zero; and the
  import of any other export, one object per active entry, raises and leaves the
  importing store as it was.
\<close>

theorem export_then_import:
  "(filter is_active (cultural_entries d) = [] \<longrightarrow>
      snd (export_data d req) = [] \<and>
      import_from_json d0 (snd (export_data d req)) u =
        (log_activity d0 u ''import'' ''Imported 0 entries from JSON'' None, Inr 0)) \<and>
   (filter is_active (cultural_entries d) \<noteq> [] \<longrightarrow>
      length (snd (export_data d req)) = length (filter is_active (cultural_entries d)) \<and>
      fst (import_from_json d0 (snd (export_data d req)) u) = d0 \<and>
      (snd (import_from_json d0 (snd (export_data d req)) u) = Inl TypeError \<or>
       snd (import_from_json d0 (snd (export_data d req)) u) = Inl AttributeError))"
proof (intro conjI impI)
  assume e: "filter is_active (cultural_entries d) = []"
  then show "snd (export_data d req) = []"
    by (simp add: export_data_def order_by_created_desc_def Let_def)
  then show "import_from_json d0 (snd (export_data d req)) u =
        (log_activity d0 u ''import'' ''Imported 0 entries from JSON'' None, Inr 0)"
    by (simp add: import_from_json_def string_of_nat.simps digit_char_def)
next
  assume ne: "filter is_active (cultural_entries d) \<noteq> []"
  show "length (snd (export_data d req)) = length (filter is_active (cultural_entries d))"
    by (simp add: export_data_def order_by_created_desc_def Let_def)
  have "order_by_created_desc (filter is_active (cultural_entries d)) \<noteq> []"
    using ne by (simp add: order_by_created_desc_def) (metis length_0_conv length_sort)
  then obtain e es where "order_by_created_desc (filter is_active (cultural_entries d)) = e # es"
    by (cases "order_by_created_desc (filter is_active (cultural_entries d))") auto
  then have x: "snd (export_data d req) = cultural_entry_serializer d e # map (cultural_entry_serializer d) es"
    by (simp add: export_data_def Let_def)
  have l: "import_loop d0 0 (snd (export_data d req)) =
      (if examples_of d e = [] then Inl AttributeError else Inl TypeError)"
    by (simp add: x import_record_serialized and_then_def)
  show "fst (import_from_json d0 (snd (export_data d req)) u) = d0"
    by (simp add: import_from_json_def l)
  show "snd (import_from_json d0 (snd (export_data d req)) u) = Inl TypeError \<or>
       snd (import_from_json d0 (snd (export_data d req)) u) = Inl AttributeError"
    by (simp add: import_from_json_def l)
qed

lemma one_entry_export:
  "snd (export_data one_entry_db anonymous) = [cultural_entry_serializer one_entry_db entry_ubuntu]"
  by (simp add: export_data_def one_entry_db_def empty_db_def order_by_created_desc_def Let_def
      entry_ubuntu_def)

lemma one_entry_examples: "examples_of one_entry_db entry_ubuntu = []"
  by (simp add: examples_of_def one_entry_db_def empty_db_def)

text \<open>
  The round trip of the claim fails for a store with one active entry without children:
  the import of its export into the empty store raises \<open>AttributeError\<close> (a list has
  no \<open>items\<close>) and stores no entry.
\<close>

theorem export_then_import_counterexample:
  "length (filter is_active (cultural_entries one_entry_db)) = 1 \<and>
   import_from_json empty_db (snd (export_data one_entry_db anonymous)) None =
     (empty_db, Inl AttributeError) \<and>
   cultural_entries
     (fst (import_from_json empty_db (snd (export_data one_entry_db anonymous)) None)) = []"
  by (simp add: one_entry_export import_from_json_def import_record_serialized one_entry_examples and_then_def)
     (simp add: one_entry_db_def empty_db_def entry_ubuntu_def)

theorem export_then_import_witness:
  "filter is_active (cultural_entries example_db) \<noteq> [] \<and>
   length (snd (export_data example_db anonymous)) = 2 \<and>
   fst (import_from_json empty_db (snd (export_data example_db anonymous)) None) = empty_db \<and>
   filter is_active (cultural_entries empty_db) = [] \<and>
   import_from_json empty_db (snd (export_data empty_db anonymous)) None =
     (log_activity empty_db None ''import'' ''Imported 0 entries from JSON'' None, Inr 0)"
proof -
  have a: "filter is_active (cultural_entries example_db) = [entry_ubuntu, entry_indlela]"
    by (simp add: example_db_def entry_ubuntu_def entry_indlela_def)
  have b: "filter is_active (cultural_entries empty_db) = []"
    by (simp add: empty_db_def)
  have ne: "filter is_active (cultural_entries example_db) \<noteq> []"
    by (simp add: a)
  have c: "length (snd (export_data example_db anonymous)) =
        length (filter is_active (cultural_entries example_db)) \<and>
      fst (import_from_json empty_db (snd (export_data example_db anonymous)) None) = empty_db"
    using export_then_import[of example_db anonymous empty_db None] ne by blast
  have d: "import_from_json empty_db (snd (export_data empty_db anonymous)) None =
     (log_activity empty_db None ''import'' ''Imported 0 entries from JSON'' None, Inr 0)"
    using export_then_import[of empty_db anonymous empty_db None] b by blast
  have "length (snd (export_data example_db anonymous)) = 2"
    using c by (simp only: a) simp
  then show ?thesis using ne b c d by blast
qed

section \<open>Properties of the analytics service\<close>

lemma first_met_snoc:
  "first_met (ws @ [w]) = (if w \<in> set ws then first_met ws else first_met ws @ [w])"
  by (simp add: first_met_def)

lemma set_first_met [simp]: "set (first_met ws) = set ws"
  by (simp add: first_met_def)

lemma distinct_first_met [simp]: "distinct (first_met ws)"
  by (simp add: first_met_def)

lemma counter_add_map:
  "counter_add (map (\<lambda>v. (v, c v)) ks) w =
     (if w \<in> set ks then map (\<lambda>v. (v, if v = w then c v + 1 else c v)) ks
      else map (\<lambda>v. (v, c v)) ks @ [(w, 1)])"
  if "distinct ks"
  using that by (induction ks) auto

lemma counter_snoc: "counter (ws @ [w]) = counter_add (counter ws) w"
  by (simp add: counter_def)

lemma counter_eq:
  "counter ws = map (\<lambda>w. (w, count_list ws w)) (first_met ws)"
proof (induction ws rule: rev_induct)
  case Nil show ?case by (simp add: counter_def first_met_def)
next
  case (snoc w ws)
  show ?case
  proof (cases "w \<in> set ws")
    case True
    then show ?thesis
      by (simp add: counter_snoc snoc.IH counter_add_map first_met_snoc)
  next
    case False
    then have "count_list ws w = 0" by (simp add: count_list_0_iff)
    with False show ?thesis
      by (auto simp: counter_snoc snoc.IH counter_add_map first_met_snoc)
  qed
qed

lemma get_word_frequency_eq:
  "get_word_frequency d limit =
     take (nat limit) (sort_key (\<lambda>item. - int (snd item))
        (map (\<lambda>w. (w, count_list (corpus_words d) w)) (first_met (corpus_words d))))"
  by (simp add: get_word_frequency_def corpus_words_def most_common_def counter_eq Let_def)



lemma runs_of_word:
  "list_all P w \<Longrightarrow> runs_of P acc w = (if acc @ w = [] then [] else [acc @ w])"
  by (induction w arbitrary: acc) auto

lemma runs_of_split:
  "\<not> P c \<Longrightarrow> runs_of P acc (s @ c # t) = runs_of P acc s @ runs_of P [] t"
  by (induction s arbitrary: acc) auto

lemma runs_of_tokens_all:
  "list_all P acc \<Longrightarrow> list_all (\<lambda>w. w \<noteq> [] \<and> list_all P w) (runs_of P acc s)"
  by (induction s arbitrary: acc) simp_all

lemma runs_of_tokens:
  "w \<in> set (runs_of P [] s) \<Longrightarrow> w \<noteq> [] \<and> list_all P w"
  using runs_of_tokens_all[of P "[]" s] by (simp add: list_all_iff)

lemma sorted_take_sort_key:
  "sorted (map k (take n (sort_key k xs)))"
  by (simp add: sorted_wrt_take take_map[symmetric])

lemma filter_take_prefix: "prefix (filter P (take n xs)) (filter P xs)"
  by (metis append_take_drop_id filter_append prefixI)

lemma hd_sort_key_unique_min:
  assumes "x \<in> set xs" and "\<And>y. y \<in> set xs \<Longrightarrow> y \<noteq> x \<Longrightarrow> k x < k y"
  shows "take 1 (sort_key k xs) = [x]"
proof -
  have "set (sort_key k xs) = set xs" by simp
  with assms(1) obtain y ys where s: "sort_key k xs = y # ys"
    by (cases "sort_key k xs") auto
  have srt: "sorted (map k (y # ys))" using sorted_sort_key[of k xs] by (simp only: s)
  have "y = x"
  proof (rule ccontr)
    assume ne: "y \<noteq> x"
    have y: "y \<in> set xs" using s by (metis list.set_intros(1) set_sort)
    have "x \<in> set ys" using assms(1) s ne by (metis set_ConsD set_sort)
    then have "k y \<le> k x" using srt by auto
    with assms(2)[OF y ne] show False by simp
  qed
  then show ?thesis by (simp add: s)
qed

text \<open>
  Claim C9, as the code has it. \<open>get_word_frequency\<close> joins the texts of the active
  entries with spaces, lower-cases the result (Unicode-aware) and cuts it into the
  maximal runs of word characters, which are the Unicode-aware alphanumeric characters
  and the underscore: the text is split at every other character, and a non-empty
  string of word characters is one token. It counts each token and returns the first
  \<open>limit\<close> of the distinct tokens with their counts, ordered by descending count,
  tokens of equal count in the order they are first met. A token that occurs more often
  than every other one is alone in the answer to limit one, with its count.
\<close>

theorem word_frequency_characterisation:
  "get_word_frequency d limit =
     take (nat limit) (sort_key (\<lambda>item. - int (snd item))
        (map (\<lambda>w. (w, count_list (corpus_words d) w)) (first_met (corpus_words d)))) \<and>
   sorted (map (\<lambda>item. - int (snd item)) (get_word_frequency d limit)) \<and>
   (\<forall>c. prefix (map fst (filter (\<lambda>item. snd item = c) (get_word_frequency d limit)))
              (filter (\<lambda>w. count_list (corpus_words d) w = c) (first_met (corpus_words d)))) \<and>
   (\<forall>w \<in> set (corpus_words d). w \<noteq> [] \<and> list_all is_word_char w) \<and>
   (\<forall>c s t. \<not> is_word_char c \<longrightarrow> findall_words (s @ c # t) = findall_words s @ findall_words t) \<and>
   (\<forall>w. w \<noteq> [] \<and> list_all is_word_char w \<longrightarrow> findall_words w = [w]) \<and>
   (\<forall>w. (\<forall>v. v \<noteq> w \<longrightarrow> count_list (corpus_words d) v < count_list (corpus_words d) w) \<longrightarrow>
        get_word_frequency d 1 = [(w, count_list (corpus_words d) w)])"
proof -
  let ?ws = "corpus_words d"
  let ?k = "\<lambda>item :: string \<times> nat. - int (snd item)"
  let ?items = "map (\<lambda>w. (w, count_list ?ws w)) (first_met ?ws)"
  have 1: "get_word_frequency d limit = take (nat limit) (sort_key ?k ?items)" for limit
    by (rule get_word_frequency_eq)
  have 2: "sorted (map ?k (get_word_frequency d limit))"
    unfolding 1 by (rule sorted_take_sort_key)
  have 3: "prefix (map fst (filter (\<lambda>item. snd item = c) (get_word_frequency d limit)))
              (filter (\<lambda>w. count_list ?ws w = c) (first_met ?ws))" for c
  proof -
    have "prefix (filter (\<lambda>item. ?k item = - int c) (take (nat limit) (sort_key ?k ?items)))
                 (filter (\<lambda>item. ?k item = - int c) (sort_key ?k ?items))"
      by (rule filter_take_prefix)
    then have "prefix (filter (\<lambda>item. ?k item = - int c) (get_word_frequency d limit))
                 (filter (\<lambda>item. ?k item = - int c) ?items)"
      by (simp only: 1 sort_key_stable)
    then have "prefix (map fst (filter (\<lambda>item. snd item = c) (get_word_frequency d limit)))
                 (map fst (filter (\<lambda>item. snd item = c) ?items))"
      by (simp add: map_mono_prefix)
    moreover have "map fst (filter (\<lambda>item. snd item = c) ?items) =
        filter (\<lambda>w. count_list ?ws w = c) (first_met ?ws)"
      by (simp add: filter_map comp_def)
    ultimately show ?thesis by simp
  qed
  have 4: "\<forall>w \<in> set ?ws. w \<noteq> [] \<and> list_all is_word_char w"
    by (auto simp: corpus_words_def findall_words_def dest: runs_of_tokens)
  have 5: "\<forall>c s t. \<not> is_word_char c \<longrightarrow> findall_words (s @ c # t) = findall_words s @ findall_words t"
    by (simp add: findall_words_def runs_of_split)
  have 6: "\<forall>w. w \<noteq> [] \<and> list_all is_word_char w \<longrightarrow> findall_words w = [w]"
    by (simp add: findall_words_def runs_of_word)
  have 7: "get_word_frequency d 1 = [(w, count_list ?ws w)]"
    if m: "\<forall>v. v \<noteq> w \<longrightarrow> count_list ?ws v < count_list ?ws w" for w
  proof -
    have "CHR ''a'' # w \<noteq> w" by simp
    with m have "0 < count_list ?ws w" by (metis gr_implies_not0 gr0I)
    then have w: "w \<in> set ?ws" by (metis count_list_0_iff less_numeral_extra(3))
    then have x: "(w, count_list ?ws w) \<in> set ?items" by auto
    have "take 1 (sort_key ?k ?items) = [(w, count_list ?ws w)]"
    proof (rule hd_sort_key_unique_min[OF x])
      fix y assume "y \<in> set ?items" "y \<noteq> (w, count_list ?ws w)"
      then obtain v where "y = (v, count_list ?ws v)" "v \<noteq> w" by auto
      with m show "?k (w, count_list ?ws w) < ?k y" by simp
    qed
    then show ?thesis using 1[of 1] by simp
  qed
  show ?thesis using 1 2 3 4 5 6 7 by blast
qed

lemma ubuntu_corpus_words:
  "corpus_words ubuntu_corpus = [''ubuntu'', ''ubuntu'', ''ngumuntu'', ''ubuntu'', ''ngumuntu'']"
  by code_simp

lemma accent_corpus_words:
  "corpus_words accent_corpus = [CHR 0xE9 # ''mile'', ''ubuntu'']"
  by code_simp

text \<open>
  \<open>Ubuntu\<close> three times, \<open>ngumuntu\<close> twice; and a capital with an accent is lower-cased
  and stays inside its word.
\<close>

theorem word_frequency_characterisation_witness:
  "corpus_words ubuntu_corpus = [''ubuntu'', ''ubuntu'', ''ngumuntu'', ''ubuntu'', ''ngumuntu''] \<and>
   get_word_frequency ubuntu_corpus 1 = [(''ubuntu'', 3)] \<and>
   corpus_words accent_corpus = [CHR 0xE9 # ''mile'', ''ubuntu''] \<and>
   get_word_frequency accent_corpus 1 = [(CHR 0xE9 # ''mile'', 1)]"
proof -
  have "\<forall>v. v \<noteq> ''ubuntu'' \<longrightarrow>
          count_list (corpus_words ubuntu_corpus) v < count_list (corpus_words ubuntu_corpus) ''ubuntu''"
    by (simp add: ubuntu_corpus_words)
  then have "get_word_frequency ubuntu_corpus 1 =
      [(''ubuntu'', count_list (corpus_words ubuntu_corpus) ''ubuntu'')]"
    using word_frequency_characterisation[of ubuntu_corpus 1] by blast
  moreover have "get_word_frequency accent_corpus 1 =
      take (nat 1) (sort_key (\<lambda>item. - int (snd item))
        (map (\<lambda>w. (w, count_list (corpus_words accent_corpus) w))
          (first_met (corpus_words accent_corpus))))"
    using word_frequency_characterisation[of accent_corpus 1] by blast
  ultimately show ?thesis
    by (simp add: ubuntu_corpus_words accent_corpus_words first_met_def)
qed

text \<open>
  A text with an underscore: the code returns one token that is no run of alphanumeric
  characters, where tokenizing into alphanumeric runs gives \<open>umuntu\<close>.
\<close>

theorem word_frequency_counterexample:
  "get_word_frequency underscore_corpus 1 = [(''umuntu_omusha'', 1)] \<and>
   \<not> list_all is_alnum ''umuntu_omusha'' \<and>
   spec_word_frequency underscore_corpus 1 = [(''umuntu'', 1)]"
  by code_simp

end
